theory Spec2Isabelle
  imports Complex_Main "HOL-Library.Word"
begin

section \<open>Numbers and the helpers of THREE.MathUtils\<close>

text \<open>
  JavaScript numbers are modelled as the real numbers they approximate, except where
  the code compares computed numbers for equality: there, in the normalisation of the
  rotation angles, the rounding of the sum is modelled. A field or an argument that
  can be \<^verbatim>\<open>null\<close> or \<^verbatim>\<open>undefined\<close> is a \<open>real option\<close>, and the operator \<^verbatim>\<open>a ?? b\<close> is
  \<open>nullish\<close>. The bytes of a \<^verbatim>\<open>Uint8Array\<close> are 8-bit words.
\<close>

type_synonym u8 = "8 word"

definition nullish :: "'a option \<Rightarrow> 'a \<Rightarrow> 'a" where
  "nullish a b = (case a of None \<Rightarrow> b | Some v \<Rightarrow> v)"

text \<open>\<^verbatim>\<open>clamp(value, min, max) = Math.max(min, Math.min(max, value))\<close>\<close>

definition clamp :: "real \<Rightarrow> real \<Rightarrow> real \<Rightarrow> real" where
  "clamp val lo hi = max lo (min hi val)"

text \<open>\<^verbatim>\<open>lerp(x, y, t) = (1 - t) * x + t * y\<close>\<close>

definition lerp :: "real \<Rightarrow> real \<Rightarrow> real \<Rightarrow> real" where
  "lerp x y t = (1 - t) * x + t * y"

text \<open>\<^verbatim>\<open>degToRad(degrees) = degrees * (Math.PI / 180)\<close>\<close>

definition degToRad :: "real \<Rightarrow> real" where
  "degToRad degrees = degrees * (pi / 180)"

text \<open>
  The remainder operator \<^verbatim>\<open>%\<close> of JavaScript truncates the quotient towards zero, so the
  result has the sign of the dividend.
\<close>

definition js_trunc :: "real \<Rightarrow> int" where
  "js_trunc q = (if 0 \<le> q then \<lfloor>q\<rfloor> else \<lceil>q\<rceil>)"

definition js_rem :: "real \<Rightarrow> real \<Rightarrow> real" where
  "js_rem a n = a - n * of_int (js_trunc (a / n))"

text \<open>
  A JavaScript number is an IEEE 754 double. The remainder of two doubles is a double,
  so \<^verbatim>\<open>%\<close> does not round; a sum is the exact sum rounded to the nearest double, a tie
  going to the double with the even significand. \<open>toDouble\<close> is this rounding for the
  normal range, with 53 bits of significand: \<open>e\<close> is the exponent of \<open>x\<close> and \<open>ulp\<close> the
  distance of neighbouring doubles at that exponent. Overflow and subnormal numbers,
  which angles do not reach, are left out.
\<close>

definition roundHalfEven :: "real \<Rightarrow> int" where
  "roundHalfEven y =
     (let f = \<lfloor>y\<rfloor> in
      if y - of_int f < 1 / 2 then f
      else if y - of_int f > 1 / 2 then f + 1
      else if even f then f else f + 1)"

definition toDouble :: "real \<Rightarrow> real" where
  "toDouble x =
     (if x = 0 then 0
      else let e = \<lfloor>log 2 \<bar>x\<bar>\<rfloor>;
               ulp = 2 powr (of_int e - 52)
           in ulp * of_int (roundHalfEven (x / ulp)))"

section \<open>AutoExposureController\<close>

text \<open>
  What the controller does to its collaborators is recorded in the state: the calls it
  makes on the renderer, the value of the exposure uniform, the values handed to the
  \<^verbatim>\<open>onExposureChange\<close> callback and the lines written to the console.
\<close>

datatype gl_call =
    GetRenderTarget
  | SetRenderTargetLuminance
  | RenderScene
  | SetRenderTargetPrevious
  | ReadRenderTargetPixels

datatype gl_error = ReadPixelsUnavailable

text \<open>
  The outcome of \<^verbatim>\<open>renderer.readRenderTargetPixels\<close> on one frame: it throws, or it
  delivers the bytes it writes into the buffer.
\<close>

type_synonym readback = "gl_error + u8 list"

record auto_exposure =
  renderer :: bool
  exposurePass :: "real option option"
  onExposureChange :: bool
  enabled :: bool
  manualExposure :: "real option"
  currentExposure :: "real option"
  autoExposureValue :: "real option"
  luminanceRenderTarget :: bool
  luminanceBuffer :: "u8 list"
  averageLuminance :: real
  glCalls :: "gl_call list"
  exposureChanges :: "real option list"
  console :: "string list"

text \<open>
  The parameters are assigned once in the constructor and by no method:
  \<^verbatim>\<open>target = 0.45\<close>, \<^verbatim>\<open>min = 0.50\<close>, \<^verbatim>\<open>max = 2.5\<close>, \<^verbatim>\<open>smooth = 0.12\<close>,
  \<^verbatim>\<open>brightThreshold = 0.65\<close>, \<^verbatim>\<open>sampleSize = 8\<close>.
\<close>

definition target :: real where "target = 0.45"
definition minExposure :: real where "minExposure = 0.50"
definition maxExposure :: real where "maxExposure = 2.5"
definition smooth :: real where "smooth = 0.12"
definition brightThreshold :: real where "brightThreshold = 0.65"
definition sampleSize :: nat where "sampleSize = 8"

text \<open>A \<^verbatim>\<open>Uint8Array\<close> is created filled with zeros: 64 black pixels.\<close>

definition blackFrame :: "u8 list" where
  "blackFrame = replicate (sampleSize * sampleSize * 4) 0"

text \<open>
  The constructor; its arguments say whether a renderer, an exposure pass (with the
  value its uniform holds) and a callback were passed.
\<close>

definition ae_constructor :: "bool \<Rightarrow> real option option \<Rightarrow> bool \<Rightarrow> auto_exposure" where
  "ae_constructor rnd pass cb =
     \<lparr> renderer = rnd, exposurePass = pass, onExposureChange = cb,
       enabled = False,
       manualExposure = Some 1.0, currentExposure = Some 1.0, autoExposureValue = Some 1.0,
       luminanceRenderTarget = True,
       luminanceBuffer = blackFrame,
       averageLuminance = 0.5,
       glCalls = [], exposureChanges = [], console = [] \<rparr>"

definition setExposure :: "real option \<Rightarrow> auto_exposure \<Rightarrow> auto_exposure" where
  "setExposure val s =
     s\<lparr> currentExposure := val,
        exposurePass := (case exposurePass s of None \<Rightarrow> None | Some _ \<Rightarrow> Some val),
        exposureChanges := (if onExposureChange s then exposureChanges s @ [val]
                            else exposureChanges s) \<rparr>"

definition ae_init :: "real option \<Rightarrow> bool option \<Rightarrow> auto_exposure \<Rightarrow> auto_exposure" where
  "ae_init exposure autoExposure s =
     (let m = nullish exposure 1.0 in
      s\<lparr> manualExposure := Some m, currentExposure := Some m, autoExposureValue := Some m,
         enabled := nullish autoExposure False,
         exposurePass := (case exposurePass s of None \<Rightarrow> None | Some _ \<Rightarrow> Some (Some m)) \<rparr>)"

definition ae_setEnabled :: "bool \<Rightarrow> auto_exposure \<Rightarrow> auto_exposure" where
  "ae_setEnabled en s =
     (let s1 = s\<lparr> enabled := en \<rparr> in
      if enabled s1
      then s1\<lparr> autoExposureValue :=
                  Some (nullish (currentExposure s1) (nullish (manualExposure s1) 1)) \<rparr>
      else setExposure (Some (nullish (manualExposure s1) 1)) s1)"

definition setManualExposure :: "real option \<Rightarrow> auto_exposure \<Rightarrow> auto_exposure" where
  "setManualExposure val s =
     (let s1 = s\<lparr> manualExposure := val \<rparr> in
      if \<not> enabled s1 then setExposure val s1 else s1)"

text \<open>
  The loop over the buffer, four bytes a pixel, with the Rec. 709 weights. The buffer
  has \<open>sampleSize * sampleSize * 4\<close> bytes, so no pixel is cut short; on a shorter rest
  the recursion stops.
\<close>

definition pixelValue :: "u8 \<Rightarrow> u8 \<Rightarrow> u8 \<Rightarrow> real" where
  "pixelValue r g b =
     0.2126 * (real (unat r) / 255) + 0.7152 * (real (unat g) / 255)
     + 0.0722 * (real (unat b) / 255)"

fun sumLuminance :: "u8 list \<Rightarrow> real \<Rightarrow> real" where
  "sumLuminance (r # g # b # a # rest) acc = sumLuminance rest (acc + pixelValue r g b)"
| "sumLuminance _ acc = acc"

definition avgLuminance :: "u8 list \<Rightarrow> real" where
  "avgLuminance buf = sumLuminance buf 0 / (real (length buf) / 4)"

text \<open>The renderer writes the bytes it read over the front of the fixed-size buffer.\<close>

definition fillBuffer :: "u8 list \<Rightarrow> u8 list \<Rightarrow> u8 list" where
  "fillBuffer buf px = take (length buf) (px @ drop (length px) buf)"

text \<open>
  The renderer calls of one sampling: the scene is rendered into the luminance target,
  the previous target is restored, and the pixels are read back inside the \<^verbatim>\<open>try\<close>.
\<close>

definition samplingCalls :: "gl_call list" where
  "samplingCalls = [GetRenderTarget, SetRenderTargetLuminance, RenderScene,
                    SetRenderTargetPrevious, ReadRenderTargetPixels]"

text \<open>
  A failed readback leaves through the empty \<^verbatim>\<open>catch\<close> block: what was done before
  the call stays done, the buffer and the average are not written.
\<close>

definition sampleSceneLuminance :: "readback \<Rightarrow> auto_exposure \<Rightarrow> auto_exposure" where
  "sampleSceneLuminance rb s =
     (if \<not> luminanceRenderTarget s \<or> \<not> renderer s then s
      else
        let s1 = s\<lparr> glCalls := glCalls s @ samplingCalls \<rparr>
        in case rb of
             Inl err \<Rightarrow> s1
           | Inr px \<Rightarrow>
               let buf = fillBuffer (luminanceBuffer s1) px;
                   avg = avgLuminance buf
               in s1\<lparr> luminanceBuffer := buf,
                      averageLuminance := clamp (lerp (averageLuminance s1) avg 0.35) 0 1 \<rparr>)"

text \<open>
  The local constants \<^verbatim>\<open>luminance\<close> and \<^verbatim>\<open>targetExposure\<close> of \<^verbatim>\<open>applyAutoExposure\<close>. The
  field \<^verbatim>\<open>averageLuminance\<close> holds a number from the constructor on and is only ever
  assigned numbers, so the fallbacks of \<^verbatim>\<open>averageLuminance ?? target\<close> here and of
  \<^verbatim>\<open>averageLuminance ?? avg\<close> in the sampling are never taken. \<^verbatim>\<open>Math.pow\<close> with a
  non-negative base is \<open>powr\<close>.
\<close>

definition luminance :: "auto_exposure \<Rightarrow> real" where
  "luminance s = clamp (averageLuminance s) 0.05 1.2"

definition targetExposure :: "auto_exposure \<Rightarrow> real" where
  "targetExposure s =
     (let t =
        (if luminance s > brightThreshold then
           let thresholdExposure = target / brightThreshold;
               normalizedBrightness = (luminance s - brightThreshold) / (1.2 - brightThreshold);
               curve = normalizedBrightness powr 1.8
           in lerp thresholdExposure minExposure curve
         else target / luminance s)
      in clamp t minExposure maxExposure)"

definition applyAutoExposure :: "auto_exposure \<Rightarrow> auto_exposure" where
  "applyAutoExposure s =
     (if \<not> enabled s then s
      else
        let s1 = s\<lparr> autoExposureValue :=
                   Some (lerp (nullish (autoExposureValue s) (targetExposure s))
                              (targetExposure s) smooth) \<rparr>
        in setExposure (autoExposureValue s1) s1)"

definition update :: "bool \<Rightarrow> readback \<Rightarrow> auto_exposure \<Rightarrow> auto_exposure" where
  "update unlitMode rb s =
     (if unlitMode then s else applyAutoExposure (sampleSceneLuminance rb s))"

definition getExposure :: "auto_exposure \<Rightarrow> real option" where
  "getExposure s = currentExposure s"

definition getAverageLuminance :: "auto_exposure \<Rightarrow> real" where
  "getAverageLuminance s = averageLuminance s"

definition resetLuminance :: "auto_exposure \<Rightarrow> auto_exposure" where
  "resetLuminance s =
     s\<lparr> averageLuminance := target,
        autoExposureValue :=
          Some (nullish (currentExposure s) (nullish (manualExposure s) 1)) \<rparr>"

definition applyStateSnapshot :: "real option \<Rightarrow> bool option \<Rightarrow> auto_exposure \<Rightarrow> auto_exposure" where
  "applyStateSnapshot exposure autoExposure s =
     (let m = nullish exposure 1.0;
          s1 = s\<lparr> manualExposure := Some m, autoExposureValue := Some m \<rparr>;
          s2 = ae_setEnabled (nullish autoExposure False) s1
      in if \<not> enabled s2 then setExposure (manualExposure s2) s2 else s2)"

definition ae_dispose :: "auto_exposure \<Rightarrow> auto_exposure" where
  "ae_dispose s = s\<lparr> luminanceRenderTarget := False \<rparr>"

subsection \<open>Runs of the controller\<close>

text \<open>
  The public operations a host calls between construction and teardown, and a run of
  them. \<open>manualSetting\<close> follows the manual exposure the host has asked for: every
  \<^verbatim>\<open>init\<close> sets it to its exposure (1 without one) and every \<^verbatim>\<open>setManualExposure\<close> to its
  argument, so it is the argument of the most recent \<^verbatim>\<open>setManualExposure\<close> since the
  last \<^verbatim>\<open>init\<close>, or what that \<^verbatim>\<open>init\<close> set.
\<close>

datatype ae_op =
    Init "real option" "bool option"
  | Update bool readback
  | SetManualExposure real
  | SetEnabled bool
  | ResetLuminance

fun ae_step :: "ae_op \<Rightarrow> auto_exposure \<Rightarrow> auto_exposure" where
  "ae_step (Init exposure autoExposure) s = ae_init exposure autoExposure s"
| "ae_step (Update unlitMode rb) s = update unlitMode rb s"
| "ae_step (SetManualExposure v) s = setManualExposure (Some v) s"
| "ae_step (SetEnabled en) s = ae_setEnabled en s"
| "ae_step ResetLuminance s = resetLuminance s"

fun ae_run :: "ae_op list \<Rightarrow> auto_exposure \<Rightarrow> auto_exposure" where
  "ae_run [] s = s"
| "ae_run (c # cs) s = ae_run cs (ae_step c s)"

fun manualSetting :: "real \<Rightarrow> ae_op list \<Rightarrow> real" where
  "manualSetting m [] = m"
| "manualSetting m (Init exposure autoExposure # cs) = manualSetting (nullish exposure 1.0) cs"
| "manualSetting m (SetManualExposure v # cs) = manualSetting v cs"
| "manualSetting m (_ # cs) = manualSetting m cs"

text \<open>
  The value C2 names, word for word: the argument of the most recent
  \<^verbatim>\<open>setManualExposure\<close> of the run, or the initial manual value \<open>m\<close> when the run has
  none; an \<^verbatim>\<open>init\<close> does not enter into it.
\<close>

fun lastManualArgument :: "real \<Rightarrow> ae_op list \<Rightarrow> real" where
  "lastManualArgument m [] = m"
| "lastManualArgument m (SetManualExposure v # cs) = lastManualArgument v cs"
| "lastManualArgument m (_ # cs) = lastManualArgument m cs"

text \<open>
  The invariant of every run: the manual exposure is the one last asked for, and while
  auto-exposure is off the current exposure equals it.
\<close>

definition manual_inv :: "real \<Rightarrow> auto_exposure \<Rightarrow> bool" where
  "manual_inv m s = (manualExposure s = Some m \<and> (enabled s \<or> currentExposure s = Some m))"

text \<open>Frame after frame: \<open>n\<close> calls of \<^verbatim>\<open>update()\<close>, the \<open>k\<close>-th reading back \<open>f k\<close>.\<close>

primrec runUpdates :: "(nat \<Rightarrow> readback) \<Rightarrow> nat \<Rightarrow> auto_exposure \<Rightarrow> auto_exposure" where
  "runUpdates f 0 s = s"
| "runUpdates f (Suc n) s = update False (f n) (runUpdates f n s)"

definition everyFrame :: "u8 list \<Rightarrow> nat \<Rightarrow> readback" where
  "everyFrame px n = Inr px"

text \<open>
  A frame of 64 grey pixels, 48 of value 115 and 16 of value 114, whose average
  luminance is exactly 0.45.
\<close>

definition targetFrame :: "u8 list" where
  "targetFrame =
     concat (replicate 48 [115, 115, 115, 255]) @ concat (replicate 16 [114, 114, 114, 255])"

section \<open>EnvironmentController\<close>

text \<open>
  A texture delivered by a loader carries an identifier and the image size the
  controller can detect on it (none when \<^verbatim>\<open>image\<close>, \<^verbatim>\<open>image.data\<close> and \<^verbatim>\<open>source.data\<close> all
  lack a width). The scene shows such a texture or the texture of a render target.
  Render targets are numbered as they are allocated. Pixel formats and encodings have
  no part in the lifecycle of the resources and are left out.
\<close>

record source_texture =
  tex_id :: nat
  tex_dims :: "(nat \<times> nat) option"

datatype texture = Source source_texture | TargetTexture nat

datatype gpu_resource =
    TextureResource nat
  | RenderTargetResource nat
  | PmremGeneratorResource

datatype loader = TextureLoader | RGBELoader

text \<open>A preset is configured by a URL string or by an object with \<^verbatim>\<open>url\<close> and \<^verbatim>\<open>type\<close>.\<close>

datatype preset_config = ConfigUrl string | ConfigObject "string option" "string option"

text \<open>
  What a loader answers: it rejects with a message, or it resolves, possibly with no
  texture.
\<close>

type_synonym load_outcome = "string + source_texture option"

record scene_graph =
  environment :: "texture option"
  environmentIntensity :: real
  background :: "texture option"
  backgroundBlurriness :: "real option"
  backgroundIntensity :: "real option"

record environment =
  scene :: scene_graph
  clearColor :: "(string \<times> real) option"
  presets :: "string \<rightharpoonup> preset_config"
  moods :: "string \<rightharpoonup> string"
  onEnvironmentMapUpdated :: bool
  env_enabled :: bool
  backgroundEnabled :: bool
  strength :: real
  blurriness :: real
  rotation :: real
  fallbackColor :: string
  pmremGenerator :: bool
  cache :: "string \<rightharpoonup> source_texture"
  currentPreset :: "string option"
  currentEnvironmentTexture :: "source_texture option"
  environmentRenderTarget :: "nat option"
  rotationRenderTarget :: "nat option"
  nextTarget :: nat
  disposed :: "gpu_resource list"
  loads :: "(loader \<times> string) list"
  rotationRenders :: "(nat \<times> real) list"
  mapUpdates :: "(texture option \<times> real) list"
  env_console :: "string list"

record env_options =
  opt_presets :: "(string \<rightharpoonup> preset_config) option"
  opt_moods :: "(string \<rightharpoonup> string) option"
  opt_initialPreset :: "string option"
  opt_enabled :: "bool option"
  opt_backgroundEnabled :: "bool option"
  opt_strength :: "real option"
  opt_blurriness :: "real option"
  opt_rotation :: "real option"
  opt_fallbackColor :: "string option"
  opt_onEnvironmentMapUpdated :: bool

definition env_constructor :: "scene_graph \<Rightarrow> env_options \<Rightarrow> environment" where
  "env_constructor sc opts =
     \<lparr> scene = sc, clearColor = None,
       presets = nullish (opt_presets opts) Map.empty,
       moods = nullish (opt_moods opts) Map.empty,
       onEnvironmentMapUpdated = opt_onEnvironmentMapUpdated opts,
       env_enabled = nullish (opt_enabled opts) True,
       backgroundEnabled = nullish (opt_backgroundEnabled opts) True,
       strength = nullish (opt_strength opts) 1.0,
       blurriness = nullish (opt_blurriness opts) 0.0,
       rotation = nullish (opt_rotation opts) 0,
       fallbackColor = nullish (opt_fallbackColor opts) ''#000000'',
       pmremGenerator = True,
       cache = Map.empty,
       currentPreset = opt_initialPreset opts,
       currentEnvironmentTexture = None,
       environmentRenderTarget = None,
       rotationRenderTarget = None,
       nextTarget = 0,
       disposed = [], loads = [], rotationRenders = [], mapUpdates = [], env_console = [] \<rparr>"

definition env_dispose :: "environment \<Rightarrow> environment" where
  "env_dispose s =
     (let s1 = (case environmentRenderTarget s of
                  None \<Rightarrow> s
                | Some rt \<Rightarrow> s\<lparr> disposed := disposed s @ [RenderTargetResource rt],
                                environmentRenderTarget := None \<rparr>);
          s2 = (case rotationRenderTarget s1 of
                  None \<Rightarrow> s1
                | Some rt \<Rightarrow> s1\<lparr> disposed := disposed s1 @ [RenderTargetResource rt],
                                 rotationRenderTarget := None \<rparr>)
      in if pmremGenerator s2 then s2\<lparr> disposed := disposed s2 @ [PmremGeneratorResource] \<rparr>
         else s2)"

definition notifyEnvironmentMapUpdated :: "texture option \<Rightarrow> real \<Rightarrow> environment \<Rightarrow> environment" where
  "notifyEnvironmentMapUpdated tex intensity s =
     (if onEnvironmentMapUpdated s then s\<lparr> mapUpdates := mapUpdates s @ [(tex, intensity)] \<rparr>
      else s)"

text \<open>
  \<^verbatim>\<open>_createRotatedTexture\<close>, called with a loaded texture: the previous rotation target
  is disposed first; without a detectable width the source comes back unrotated;
  otherwise a new target is allocated, the quad is rendered into it with the rotation
  uniform \<^verbatim>\<open>(rotationDegrees / 360) % 1.0\<close>, and its texture is returned.
\<close>

definition createRotatedTexture ::
    "source_texture \<Rightarrow> real \<Rightarrow> environment \<Rightarrow> texture \<times> environment" where
  "createRotatedTexture sourceTexture rotationDegrees s =
     (let rot = js_rem (rotationDegrees / 360) 1.0;
          s1 = (case rotationRenderTarget s of
                  None \<Rightarrow> s
                | Some rt \<Rightarrow> s\<lparr> disposed := disposed s @ [RenderTargetResource rt],
                                rotationRenderTarget := None \<rparr>)
      in case tex_dims sourceTexture of
           None \<Rightarrow>
             (Source sourceTexture,
              s1\<lparr> env_console := env_console s1 @
                    [''Could not detect HDRI texture dimensions, skipping rotation''] \<rparr>)
         | Some (width, height) \<Rightarrow>
             if width = 0 then
               (Source sourceTexture,
                s1\<lparr> env_console := env_console s1 @
                      [''Could not detect HDRI texture dimensions, skipping rotation''] \<rparr>)
             else
               (TargetTexture (nextTarget s1),
                s1\<lparr> rotationRenderTarget := Some (nextTarget s1),
                     rotationRenders := rotationRenders s1 @ [(nextTarget s1, rot)],
                     nextTarget := Suc (nextTarget s1) \<rparr>))"

text \<open>
  \<^verbatim>\<open>_applyEnvironment\<close>, in the steps of its body: the previous convolved target is
  disposed; the source is rotated when the rotation is not 0; the PMREM generator
  convolves it into a new render target; the scene and the observer get the result;
  the background is set, for which the source is rotated a second time.
\<close>

definition disposeEnvironmentTarget :: "environment \<Rightarrow> environment" where
  "disposeEnvironmentTarget s =
     (case environmentRenderTarget s of
        None \<Rightarrow> s
      | Some rt \<Rightarrow> s\<lparr> disposed := disposed s @ [RenderTargetResource rt],
                      environmentRenderTarget := None \<rparr>)"

definition rotatedSource :: "source_texture \<Rightarrow> environment \<Rightarrow> texture \<times> environment" where
  "rotatedSource cur s =
     (if rotation s \<noteq> 0 then createRotatedTexture cur (rotation s) s else (Source cur, s))"

definition convolve :: "texture \<Rightarrow> environment \<Rightarrow> texture \<times> environment" where
  "convolve sourceTexture s =
     (if pmremGenerator s then
        (TargetTexture (nextTarget s),
         s\<lparr> environmentRenderTarget := Some (nextTarget s),
              nextTarget := Suc (nextTarget s) \<rparr>)
      else (sourceTexture, s))"

definition applyBackground :: "source_texture \<Rightarrow> texture \<Rightarrow> environment \<Rightarrow> environment" where
  "applyBackground cur envTexture s =
     (if backgroundEnabled s then
        let (rotated, s5) = rotatedSource cur s;
            bgTexture = (if blurriness s5 > 0 then envTexture else rotated)
        in s5\<lparr> scene :=
                (if backgroundBlurriness (scene s5) \<noteq> None
                 then (scene s5)\<lparr> background := Some bgTexture,
                                  backgroundBlurriness := Some (blurriness s5),
                                  backgroundIntensity := Some (strength s5) \<rparr>
                 else (scene s5)\<lparr> background := Some bgTexture \<rparr>) \<rparr>
      else
        s\<lparr> scene :=
             (if backgroundBlurriness (scene s) \<noteq> None
              then (scene s)\<lparr> background := None,
                              backgroundBlurriness := Some 0,
                              backgroundIntensity := Some 1 \<rparr>
              else (scene s)\<lparr> background := None \<rparr>),
           clearColor := Some (fallbackColor s, 1) \<rparr>)"

definition applyEnvironment :: "environment \<Rightarrow> environment" where
  "applyEnvironment s =
     (case (if env_enabled s then currentEnvironmentTexture s else None) of
        None \<Rightarrow>
          notifyEnvironmentMapUpdated None 0
            (s\<lparr> scene := (scene s)\<lparr> environment := None, environmentIntensity := 0,
                                    background := None \<rparr>,
                 clearColor := Some (fallbackColor s, 1) \<rparr>)
      | Some cur \<Rightarrow>
          let s1 = disposeEnvironmentTarget s;
              (sourceTexture, s2) = rotatedSource cur s1;
              (envTexture, s3) = convolve sourceTexture s2;
              s4 = notifyEnvironmentMapUpdated (Some envTexture) (strength s3)
                     (s3\<lparr> scene := (scene s3)\<lparr> environment := Some envTexture,
                                              environmentIntensity := strength s3 \<rparr> \<rparr>)
          in applyBackground cur envTexture s4)"

text \<open>
  \<^verbatim>\<open>_loadHdriTexture\<close>: which loader is asked follows from the configuration; what it
  answers is given from outside.
\<close>

definition loadHdriTexture ::
    "preset_config \<Rightarrow> load_outcome \<Rightarrow> environment \<Rightarrow> load_outcome \<times> environment" where
  "loadHdriTexture config outcome s =
     (let source = (case config of ConfigUrl u \<Rightarrow> Some u | ConfigObject u t \<Rightarrow> u);
          type = (case config of ConfigUrl u \<Rightarrow> Some ''hdr'' | ConfigObject u t \<Rightarrow> t)
      in case source of
           None \<Rightarrow> (Inl ''Missing HDRI source'', s)
         | Some src \<Rightarrow>
             if src = [] then (Inl ''Missing HDRI source'', s)
             else if type = Some ''ldr''
             then (outcome, s\<lparr> loads := loads s @ [(TextureLoader, src)] \<rparr>)
             else (outcome, s\<lparr> loads := loads s @ [(RGBELoader, src)] \<rparr>))"

text \<open>
  \<^verbatim>\<open>setPreset\<close>, with the answer of the loader; the \<^verbatim>\<open>await\<close> is taken in one step. It
  returns the mood of the preset or \<^verbatim>\<open>null\<close>.
\<close>

definition setPreset ::
    "string \<Rightarrow> load_outcome \<Rightarrow> environment \<Rightarrow> string option \<times> environment" where
  "setPreset preset outcome s =
     (case (if preset = [] then None else presets s preset) of
        None \<Rightarrow> (None, s)
      | Some config \<Rightarrow>
          if config = ConfigUrl [] then (None, s)
          else if currentPreset s = Some preset \<and> cache s preset \<noteq> None then
            (moods s preset, applyEnvironment (s\<lparr> currentEnvironmentTexture := cache s preset \<rparr>))
          else
            (case loadHdriTexture config outcome s of
               (Inr (Some tex), s1) \<Rightarrow>
                 (moods s1 preset,
                  applyEnvironment
                    (s1\<lparr> cache := (cache s1)(preset \<mapsto> tex),
                         currentPreset := Some preset,
                         currentEnvironmentTexture := Some tex \<rparr>))
             | (_, s1) \<Rightarrow>
                 (None, s1\<lparr> env_console := env_console s1 @ [''Failed to load HDRI preset''] \<rparr>)))"

definition env_setEnabled :: "bool \<Rightarrow> environment \<Rightarrow> environment" where
  "env_setEnabled en s = applyEnvironment (s\<lparr> env_enabled := en \<rparr>)"

definition setBackgroundEnabled :: "bool \<Rightarrow> environment \<Rightarrow> environment" where
  "setBackgroundEnabled en s = applyEnvironment (s\<lparr> backgroundEnabled := en \<rparr>)"

definition setStrength :: "real option \<Rightarrow> environment \<Rightarrow> environment" where
  "setStrength val s = applyEnvironment (s\<lparr> strength := max 0 (nullish val (strength s)) \<rparr>)"

definition setBlurriness :: "real option \<Rightarrow> environment \<Rightarrow> environment" where
  "setBlurriness val s =
     applyEnvironment (s\<lparr> blurriness := min 1 (max 0 (nullish val (blurriness s))) \<rparr>)"

definition env_setRotation :: "real option \<Rightarrow> environment \<Rightarrow> environment" where
  "env_setRotation val s =
     (let normalized = js_rem (toDouble (js_rem (nullish val 0) 360 + 360)) 360 in
      if rotation s = normalized then s
      else applyEnvironment (s\<lparr> rotation := normalized \<rparr>))"

definition setFallbackColor :: "string option \<Rightarrow> environment \<Rightarrow> environment" where
  "setFallbackColor color s =
     (let s1 = s\<lparr> fallbackColor := nullish color (fallbackColor s) \<rparr> in
      if \<not> backgroundEnabled s1 \<or> \<not> env_enabled s1 \<or> currentEnvironmentTexture s1 = None
      then s1\<lparr> clearColor := Some (fallbackColor s1, 1) \<rparr>
      else s1)"

text \<open>The operations of a session, and the scene and options of the example session.\<close>

datatype env_op =
    SetPreset string load_outcome
  | EnvSetEnabled bool
  | SetBackgroundEnabled bool
  | SetStrength "real option"
  | SetBlurriness "real option"
  | EnvSetRotation "real option"
  | SetFallbackColor "string option"

fun env_step :: "env_op \<Rightarrow> environment \<Rightarrow> environment" where
  "env_step (SetPreset preset outcome) s = snd (setPreset preset outcome s)"
| "env_step (EnvSetEnabled en) s = env_setEnabled en s"
| "env_step (SetBackgroundEnabled en) s = setBackgroundEnabled en s"
| "env_step (SetStrength v) s = setStrength v s"
| "env_step (SetBlurriness v) s = setBlurriness v s"
| "env_step (EnvSetRotation v) s = env_setRotation v s"
| "env_step (SetFallbackColor c) s = setFallbackColor c s"

fun env_run :: "env_op list \<Rightarrow> environment \<Rightarrow> environment" where
  "env_run [] s = s"
| "env_run (c # cs) s = env_run cs (env_step c s)"

definition emptyScene :: scene_graph where
  "emptyScene = \<lparr> environment = None, environmentIntensity = 1, background = None,
                  backgroundBlurriness = Some 0, backgroundIntensity = Some 1 \<rparr>"

definition studioOptions :: env_options where
  "studioOptions =
     \<lparr> opt_presets = Some [''studio'' \<mapsto> ConfigUrl ''studio.hdr''],
       opt_moods = None, opt_initialPreset = None, opt_enabled = None,
       opt_backgroundEnabled = None, opt_strength = None, opt_blurriness = None,
       opt_rotation = None, opt_fallbackColor = None,
       opt_onEnvironmentMapUpdated = False \<rparr>"

definition studioTexture :: source_texture where
  "studioTexture = \<lparr> tex_id = 7, tex_dims = Some (2048, 1024) \<rparr>"

section \<open>LightsController\<close>

datatype vec3 = Vector3 (vx: real) (vy: real) (vz: real)

text \<open>The methods of \<^verbatim>\<open>THREE.Vector3\<close> the controller calls.\<close>

definition vsub :: "vec3 \<Rightarrow> vec3 \<Rightarrow> vec3" where
  "vsub a b = Vector3 (vx a - vx b) (vy a - vy b) (vz a - vz b)"

definition vadd :: "vec3 \<Rightarrow> vec3 \<Rightarrow> vec3" where
  "vadd a b = Vector3 (vx a + vx b) (vy a + vy b) (vz a + vz b)"

definition multiplyScalar :: "vec3 \<Rightarrow> real \<Rightarrow> vec3" where
  "multiplyScalar a k = Vector3 (vx a * k) (vy a * k) (vz a * k)"

definition vlength :: "vec3 \<Rightarrow> real" where
  "vlength a = sqrt (vx a * vx a + vy a * vy a + vz a * vz a)"

text \<open>\<^verbatim>\<open>normalize() = divideScalar(length() || 1)\<close>, and dividing multiplies by the inverse.\<close>

definition vnormalize :: "vec3 \<Rightarrow> vec3" where
  "vnormalize a = multiplyScalar a (1 / (if vlength a = 0 then 1 else vlength a))"

datatype light_id = Key | Fill | Rim | Ambient

record light =
  position :: vec3
  color :: string
  intensity :: real
  isAmbientLight :: bool
  castShadow :: bool

record bounds =
  center :: vec3
  radius :: real

text \<open>
  An indicator cone of the debug group: the light it stands for, where it is, its colour
  and scale, and the direction towards the centre from which its orientation is set.
\<close>

record indicator =
  lightId :: "light_id option"
  ind_position :: vec3
  ind_color :: string
  ind_scale :: real
  ind_direction :: vec3

record lights_controller =
  lightsEnabled :: bool
  lightsMaster :: real
  lights_rotation :: real
  autoRotateSpeed :: real
  modelBounds :: "bounds option"
  showIndicators :: bool
  lightIndicators :: "indicator list option"
  lights :: "light_id \<rightharpoonup> light"
  basePositions :: "(light_id \<rightharpoonup> vec3) option"

definition directionalLight :: "real \<Rightarrow> vec3 \<Rightarrow> light" where
  "directionalLight i p =
     \<lparr> position = p, color = ''#ffffff'', intensity = i, isAmbientLight = False,
       castShadow = True \<rparr>"

definition ambientLight :: "real \<Rightarrow> light" where
  "ambientLight i =
     \<lparr> position = Vector3 0 0 0, color = ''#7c8ca6'', intensity = i, isAmbientLight = True,
       castShadow = False \<rparr>"

definition lights_constructor ::
    "bool option \<Rightarrow> real option \<Rightarrow> real option \<Rightarrow> real option \<Rightarrow> lights_controller" where
  "lights_constructor en master rot speed =
     \<lparr> lightsEnabled = nullish en True,
       lightsMaster = nullish master 1,
       lights_rotation = nullish rot 0,
       autoRotateSpeed = nullish speed 30,
       modelBounds = None,
       showIndicators = False,
       lightIndicators = None,
       lights = [Key \<mapsto> directionalLight 4 (Vector3 5 5 5),
                 Fill \<mapsto> directionalLight 2.5 (Vector3 (-4) 3 3),
                 Rim \<mapsto> directionalLight 3 (Vector3 (-2) 4 (-4)),
                 Ambient \<mapsto> ambientLight 1.5],
       basePositions = Some [Key \<mapsto> Vector3 5 5 5,
                             Fill \<mapsto> Vector3 (-4) 3 3,
                             Rim \<mapsto> Vector3 (-2) 4 (-4)] \<rparr>"

definition updateIndicator :: "bounds \<Rightarrow> (light_id \<rightharpoonup> light) \<Rightarrow> indicator \<Rightarrow> indicator" where
  "updateIndicator b ls child =
     (case lightId child of
        None \<Rightarrow> child
      | Some lid \<Rightarrow>
          (case ls lid of
             None \<Rightarrow> child
           | Some l \<Rightarrow>
               let baseDistance = radius b * 2.5;
                   direction = vnormalize (vsub (position l) (center b));
                   newPosition = vadd (center b) (multiplyScalar direction baseDistance);
                   maxIntensity = 10;
                   normalizedIntensity = min (intensity l / maxIntensity) 1;
                   sc = 0.5 + normalizedIntensity * 2.0;
                   dirToCenter = vnormalize (vsub (center b) newPosition)
               in child\<lparr> ind_position := newPosition, ind_color := color l,
                          ind_scale := sc, ind_direction := dirToCenter \<rparr>))"

definition updateIndicators :: "lights_controller \<Rightarrow> lights_controller" where
  "updateIndicators s =
     (case lightIndicators s of
        None \<Rightarrow> s
      | Some children \<Rightarrow>
          (case modelBounds s of
             None \<Rightarrow> s
           | Some b \<Rightarrow> s\<lparr> lightIndicators := Some (map (updateIndicator b (lights s)) children) \<rparr>))"

text \<open>
  The \<^verbatim>\<open>forEach\<close> of \<^verbatim>\<open>setRotation\<close> over key, fill and rim, and one round of it:
  the light is placed at its base position turned about the vertical axis.
\<close>

definition rotateLight ::
    "real \<Rightarrow> real \<Rightarrow> (light_id \<rightharpoonup> vec3) \<Rightarrow> light_id \<Rightarrow> (light_id \<rightharpoonup> light)
     \<Rightarrow> (light_id \<rightharpoonup> light)" where
  "rotateLight c sn bp lid ls =
     (case bp lid of
        None \<Rightarrow> ls
      | Some base \<Rightarrow>
          (case ls lid of
             None \<Rightarrow> ls
           | Some l \<Rightarrow>
               let rotatedX = vx base * c + vz base * sn;
                   rotatedZ = - vx base * sn + vz base * c
               in ls(lid \<mapsto> l\<lparr> position := Vector3 rotatedX (vy base) rotatedZ \<rparr>)))"

definition rotateLights ::
    "real \<Rightarrow> real \<Rightarrow> (light_id \<rightharpoonup> vec3) \<Rightarrow> (light_id \<rightharpoonup> light)
     \<Rightarrow> (light_id \<rightharpoonup> light)" where
  "rotateLights c sn bp ls = foldl (\<lambda>m lid. rotateLight c sn bp lid m) ls [Key, Fill, Rim]"

definition lights_setRotation :: "real \<Rightarrow> lights_controller \<Rightarrow> real \<times> lights_controller" where
  "lights_setRotation val s =
     (let normalized = js_rem (toDouble (js_rem val 360 + 360)) 360;
          s1 = s\<lparr> lights_rotation := normalized \<rparr>
      in case basePositions s1 of
           None \<Rightarrow> (normalized, s1)
         | Some bp \<Rightarrow>
             let radians = degToRad normalized;
                 c = cos radians;
                 sn = sin radians;
                 s2 = s1\<lparr> lights := rotateLights c sn bp (lights s1) \<rparr>
             in (normalized, updateIndicators s2))"

text \<open>Where \<^verbatim>\<open>setRotation\<close> puts a light with base position \<open>base\<close>.\<close>

definition placed :: "real \<Rightarrow> real \<Rightarrow> vec3 \<Rightarrow> vec3" where
  "placed c sn base =
     Vector3 (vx base * c + vz base * sn) (vy base) (- vx base * sn + vz base * c)"

section \<open>PostProcessingPipeline\<close>

text \<open>
  A pass of the composer with the two flags of the base class \<^verbatim>\<open>Pass\<close> of three.js,
  which creates every pass enabled and not rendering to the screen.
\<close>

datatype pass_name =
    RenderPass | BokehPass | UnrealBloomPass | BloomTintPass | LensDirtPass | FilmPass
  | GrainTintPass | AberrationPass | FxaaPass | ExposurePass | ColorAdjustPass
  | ToneMappingPass

record pass =
  name :: pass_name
  pass_enabled :: bool
  renderToScreen :: bool






section \<open>The exposure curve\<close>

lemma luminance_bounds: "0.05 \<le> luminance s \<and> luminance s \<le> 1.2"
  by (simp add: luminance_def clamp_def)

lemma clamp_bounds: "lo \<le> hi \<Longrightarrow> lo \<le> clamp v lo hi \<and> clamp v lo hi \<le> hi"
  by (simp add: clamp_def)

lemma targetExposure_bounds: "0.5 \<le> targetExposure s \<and> targetExposure s \<le> 2.5"
  using clamp_bounds [of minExposure maxExposure]
  by (simp add: targetExposure_def Let_def minExposure_def maxExposure_def)

lemma targetExposure_inverse:
  assumes "0 < averageLuminance s" "averageLuminance s \<le> 0.65"
  shows "targetExposure s = clamp (0.45 / averageLuminance s) 0.5 2.5"
proof (cases "0.05 \<le> averageLuminance s")
  case True
  with assms have "luminance s = averageLuminance s"
    by (simp add: luminance_def clamp_def)
  with assms show ?thesis
    by (simp add: targetExposure_def Let_def brightThreshold_def target_def
        minExposure_def maxExposure_def)
next
  case False
  with assms have l: "luminance s = 0.05"
    by (simp add: luminance_def clamp_def)
  from False assms have big: "2.5 \<le> 0.45 / averageLuminance s"
    by (simp add: field_simps)
  have "targetExposure s = 2.5"
    unfolding targetExposure_def Let_def l
    by (simp add: brightThreshold_def target_def minExposure_def maxExposure_def clamp_def)
  moreover from big have "clamp (0.45 / averageLuminance s) 0.5 2.5 = 2.5"
    by (simp add: clamp_def)
  ultimately show ?thesis by simp
qed

lemma targetExposure_bright:
  assumes "0.65 < averageLuminance s" "averageLuminance s \<le> 1.2"
  shows "targetExposure s =
     clamp (lerp (0.45 / 0.65) 0.5 (((averageLuminance s - 0.65) / (1.2 - 0.65)) powr 1.8))
       0.5 2.5"
proof -
  from assms have "luminance s = averageLuminance s"
    by (simp add: luminance_def clamp_def)
  with assms show ?thesis
    by (simp add: targetExposure_def Let_def brightThreshold_def target_def
        minExposure_def maxExposure_def)
qed

lemma targetExposure_ceiling:
  assumes "1.2 \<le> averageLuminance s"
  shows "targetExposure s = 0.5"
proof -
  from assms have l: "luminance s = 1.2"
    by (simp add: luminance_def clamp_def)
  show ?thesis
    unfolding targetExposure_def Let_def l
    by (simp add: brightThreshold_def target_def minExposure_def maxExposure_def
        lerp_def clamp_def)
qed

lemma targetExposure_floor:
  assumes "averageLuminance s \<le> 0.05"
  shows "targetExposure s = 2.5"
proof -
  from assms have l: "luminance s = 0.05"
    by (simp add: luminance_def clamp_def)
  show ?thesis
    unfolding targetExposure_def Let_def l
    by (simp add: brightThreshold_def target_def minExposure_def maxExposure_def
        lerp_def clamp_def)
qed

lemma targetExposure_at_target:
  assumes "averageLuminance s = target"
  shows "targetExposure s = 1"
proof -
  from assms have l: "luminance s = target"
    by (simp add: luminance_def clamp_def target_def)
  show ?thesis
    unfolding targetExposure_def Let_def l
    by (simp add: target_def brightThreshold_def clamp_def minExposure_def maxExposure_def)
qed

lemma targetExposure_cong:
  "averageLuminance s' = averageLuminance s \<Longrightarrow> targetExposure s' = targetExposure s"
  by (simp add: targetExposure_def luminance_def)

lemma applyAutoExposure_auto:
  "enabled s \<Longrightarrow> autoExposureValue (applyAutoExposure s) =
     Some (lerp (nullish (autoExposureValue s) (targetExposure s)) (targetExposure s) 0.12)
   \<and> currentExposure (applyAutoExposure s) = autoExposureValue (applyAutoExposure s)"
  by (simp add: applyAutoExposure_def setExposure_def Let_def smooth_def)

lemma sumLuminance_zeros: "sumLuminance (replicate (4 * n) 0) acc = acc"
proof (induction n arbitrary: acc)
  case 0
  show ?case by simp
next
  case (Suc n)
  have "4 * Suc n = Suc (Suc (Suc (Suc (4 * n))))" by simp
  then have "replicate (4 * Suc n) (0::u8) = 0 # 0 # 0 # 0 # replicate (4 * n) 0"
    by (simp only: replicate_Suc)
  then show ?case by (simp add: Suc.IH pixelValue_def)
qed

lemma avgLuminance_blackFrame: "avgLuminance blackFrame = 0"
  using sumLuminance_zeros [of "sampleSize * sampleSize" 0]
  by (simp add: avgLuminance_def blackFrame_def mult.commute)

text \<open>
  C1. While auto-exposure is enabled, \<^verbatim>\<open>applyAutoExposure\<close> takes as target exposure
  \<open>0.45 / L\<close> for a smoothed average luminance \<open>L\<close> at or below the bright threshold
  0.65; above the threshold it interpolates from the exposure at the threshold,
  \<open>0.45 / 0.65\<close>, down to the minimum 0.5 along a power curve of exponent 1.8, and it
  is at the minimum from luminance 1.2 on; the target is clamped to \<open>[0.5, 2.5]\<close>, and
  only then is the auto exposure value moved towards it by the factor 0.12 and written
  to the current exposure.
\<close>

theorem applyAutoExposure_target_curve:
  assumes "enabled s"
  shows "(0 < averageLuminance s \<and> averageLuminance s \<le> 0.65 \<longrightarrow>
            targetExposure s = clamp (0.45 / averageLuminance s) 0.5 2.5)
       \<and> (0.65 < averageLuminance s \<and> averageLuminance s \<le> 1.2 \<longrightarrow>
            targetExposure s =
              clamp (lerp (0.45 / 0.65) 0.5
                       (((averageLuminance s - 0.65) / (1.2 - 0.65)) powr 1.8)) 0.5 2.5)
       \<and> (1.2 \<le> averageLuminance s \<longrightarrow> targetExposure s = 0.5)
       \<and> (averageLuminance s \<le> 0.05 \<longrightarrow> targetExposure s = 2.5)
       \<and> 0.5 \<le> targetExposure s \<and> targetExposure s \<le> 2.5
       \<and> autoExposureValue (applyAutoExposure s) =
            Some (lerp (nullish (autoExposureValue s) (targetExposure s)) (targetExposure s) 0.12)
       \<and> currentExposure (applyAutoExposure s) = autoExposureValue (applyAutoExposure s)"
  using assms targetExposure_inverse [of s] targetExposure_bright [of s]
    targetExposure_ceiling [of s] targetExposure_floor [of s] targetExposure_bounds [of s]
    applyAutoExposure_auto [of s]
  by simp

text \<open>
  The curve at the state a controller is in when auto-exposure has just been switched
  on: luminance 0.5, target \<open>0.45 / 0.5 = 0.9\<close>, and the exposure moves from 1 to 0.988.
\<close>

theorem applyAutoExposure_target_curve_witness:
  "enabled (ae_setEnabled True (ae_constructor True None False))
   \<and> targetExposure (ae_setEnabled True (ae_constructor True None False)) = 0.9
   \<and> autoExposureValue (applyAutoExposure (ae_setEnabled True (ae_constructor True None False)))
       = Some 0.988"
proof -
  let ?s = "ae_setEnabled True (ae_constructor True None False)"
  have e: "enabled ?s" and a: "averageLuminance ?s = 0.5"
    and v: "autoExposureValue ?s = Some 1"
    by (simp_all add: ae_setEnabled_def ae_constructor_def Let_def nullish_def)
  from applyAutoExposure_target_curve [OF e]
  have "targetExposure ?s = clamp (0.45 / 0.5) 0.5 2.5"
    and "autoExposureValue (applyAutoExposure ?s) =
      Some (lerp (nullish (autoExposureValue ?s) (targetExposure ?s)) (targetExposure ?s) 0.12)"
    unfolding a by simp_all
  then show ?thesis
    using e v by (simp add: clamp_def lerp_def nullish_def)
qed

text \<open>
  C10. Before the target exposure is computed the average luminance is clamped to
  \<open>[0.05, 1.2]\<close>: the divisor \<^verbatim>\<open>luminance\<close> of the inverse branch is at least 0.05 in
  every state, the target exposure lies between the minimum and the maximum exposure,
  and for a black scene, whose raw average is 0, and even at an average luminance of
  exactly 0 the division is by 0.05 and the target is the maximum exposure.
\<close>

theorem luminance_divisor_positive:
  "0.05 \<le> luminance s \<and> luminance s \<le> 1.2
   \<and> (\<not> luminance s > brightThreshold \<longrightarrow>
        targetExposure s = clamp (target / luminance s) minExposure maxExposure)
   \<and> minExposure \<le> targetExposure s \<and> targetExposure s \<le> maxExposure
   \<and> avgLuminance blackFrame = 0
   \<and> (averageLuminance s = 0 \<longrightarrow> luminance s = 0.05 \<and> targetExposure s = maxExposure)"
proof -
  have "luminance s = 0.05 \<and> targetExposure s = maxExposure" if "averageLuminance s = 0"
    using that targetExposure_floor [of s]
    by (simp add: luminance_def clamp_def maxExposure_def)
  moreover have "\<not> luminance s > brightThreshold \<Longrightarrow>
        targetExposure s = clamp (target / luminance s) minExposure maxExposure"
    by (simp add: targetExposure_def)
  ultimately show ?thesis
    using luminance_bounds [of s] targetExposure_bounds [of s] avgLuminance_blackFrame
    by (simp add: minExposure_def maxExposure_def)
qed

theorem luminance_divisor_positive_witness:
  "averageLuminance ((ae_constructor True None False)\<lparr> averageLuminance := 0 \<rparr>) = 0
   \<and> luminance ((ae_constructor True None False)\<lparr> averageLuminance := 0 \<rparr>) = 0.05
   \<and> targetExposure ((ae_constructor True None False)\<lparr> averageLuminance := 0 \<rparr>) = 2.5"
  using luminance_divisor_positive [of "(ae_constructor True None False)\<lparr> averageLuminance := 0 \<rparr>"]
  by (simp add: maxExposure_def)

section \<open>What sampling and applying change\<close>

lemma sample_fields:
  "enabled (sampleSceneLuminance rb s) = enabled s"
  "manualExposure (sampleSceneLuminance rb s) = manualExposure s"
  "currentExposure (sampleSceneLuminance rb s) = currentExposure s"
  "autoExposureValue (sampleSceneLuminance rb s) = autoExposureValue s"
  "console (sampleSceneLuminance rb s) = console s"
  "renderer (sampleSceneLuminance rb s) = renderer s"
  "luminanceRenderTarget (sampleSceneLuminance rb s) = luminanceRenderTarget s"
  by (simp_all add: sampleSceneLuminance_def Let_def split: sum.splits)

lemma apply_fields:
  "enabled (applyAutoExposure s) = enabled s"
  "manualExposure (applyAutoExposure s) = manualExposure s"
  "averageLuminance (applyAutoExposure s) = averageLuminance s"
  "glCalls (applyAutoExposure s) = glCalls s"
  "console (applyAutoExposure s) = console s"
  "luminanceBuffer (applyAutoExposure s) = luminanceBuffer s"
  "renderer (applyAutoExposure s) = renderer s"
  "luminanceRenderTarget (applyAutoExposure s) = luminanceRenderTarget s"
  by (simp_all add: applyAutoExposure_def setExposure_def Let_def)

lemma apply_disabled: "\<not> enabled s \<Longrightarrow> applyAutoExposure s = s"
  by (simp add: applyAutoExposure_def)

lemma sample_glCalls:
  "glCalls (sampleSceneLuminance rb s) =
     (if luminanceRenderTarget s \<and> renderer s then glCalls s @ samplingCalls else glCalls s)"
  by (simp add: sampleSceneLuminance_def Let_def split: sum.splits)

lemma sample_averageLuminance:
  "averageLuminance (sampleSceneLuminance rb s) =
     (if luminanceRenderTarget s \<and> renderer s then
        (case rb of Inl e \<Rightarrow> averageLuminance s
         | Inr px \<Rightarrow> clamp (lerp (averageLuminance s)
                       (avgLuminance (fillBuffer (luminanceBuffer s) px)) 0.35) 0 1)
      else averageLuminance s)"
  by (simp add: sampleSceneLuminance_def Let_def split: sum.splits)

lemma sample_failure:
  "sampleSceneLuminance (Inl e) s =
     (if luminanceRenderTarget s \<and> renderer s then s\<lparr> glCalls := glCalls s @ samplingCalls \<rparr>
      else s)"
  by (simp add: sampleSceneLuminance_def Let_def)

lemma fillBuffer_same_length: "length px = length buf \<Longrightarrow> fillBuffer buf px = px"
  by (simp add: fillBuffer_def)

lemma length_fillBuffer: "length (fillBuffer buf px) = length buf"
  by (simp add: fillBuffer_def)

lemma constructor_buffer: "luminanceBuffer (ae_constructor r p c) = blackFrame"
  by (simp add: ae_constructor_def)

lemma length_blackFrame: "length blackFrame = 256"
  by (simp add: blackFrame_def sampleSize_def)

lemma lerp_diff: "lerp x y t - x = t * (y - x)"
  by (simp add: lerp_def algebra_simps)

section \<open>Manual exposure while auto-exposure is off\<close>

lemma manual_inv_step:
  "manual_inv m s \<Longrightarrow> manual_inv (manualSetting m [c]) (ae_step c s)"
proof (cases c)
  case (Update u rb)
  assume "manual_inv m s"
  then show ?thesis
    by (cases "enabled s")
      (simp_all add: Update manual_inv_def update_def sample_fields apply_fields apply_disabled)
qed (simp_all add: manual_inv_def ae_init_def Let_def setManualExposure_def ae_setEnabled_def
      setExposure_def resetLuminance_def nullish_def)

lemma manualSetting_Cons: "manualSetting m (c # cs) = manualSetting (manualSetting m [c]) cs"
  by (cases c) simp_all

lemma manual_inv_run:
  "manual_inv m s \<Longrightarrow> manual_inv (manualSetting m cs) (ae_run cs s)"
proof (induction cs arbitrary: m s)
  case Nil
  then show ?case by simp
next
  case (Cons c cs)
  from Cons.prems have "manual_inv (manualSetting m [c]) (ae_step c s)"
    by (rule manual_inv_step)
  then have "manual_inv (manualSetting (manualSetting m [c]) cs) (ae_run cs (ae_step c s))"
    by (rule Cons.IH)
  then show ?case
    by (simp add: manualSetting_Cons [of m c cs])
qed

lemma manual_inv_constructor: "manual_inv 1 (ae_constructor r p c)"
  by (simp add: manual_inv_def ae_constructor_def)

lemma manualSetting_without_init:
  "\<forall>c \<in> set cs. \<forall>e a. c \<noteq> Init e a \<Longrightarrow> manualSetting m cs = lastManualArgument m cs"
proof (induction cs arbitrary: m)
  case Nil
  show ?case by simp
next
  case (Cons c cs)
  then show ?case by (cases c) simp_all
qed

text \<open>
  C2, as the claim states it, fails: \<^verbatim>\<open>init\<close> is among the operations, and an \<^verbatim>\<open>init\<close>
  after a \<^verbatim>\<open>setManualExposure\<close> replaces the manual exposure. After
  \<^verbatim>\<open>setManualExposure(2)\<close> and \<^verbatim>\<open>init({exposure: 1.5})\<close> auto-exposure is disabled, the most
  recent argument of \<^verbatim>\<open>setManualExposure\<close> is 2, and the current exposure is 1.5.
\<close>

theorem init_after_manual_counterexample:
  "\<not> enabled (ae_run [SetManualExposure 2, Init (Some 1.5) None] (ae_constructor True None False))
   \<and> lastManualArgument 1 [SetManualExposure 2, Init (Some 1.5) None] = 2
   \<and> currentExposure (ae_run [SetManualExposure 2, Init (Some 1.5) None]
        (ae_constructor True None False)) = Some 1.5"
  by (simp add: ae_init_def setManualExposure_def setExposure_def ae_constructor_def Let_def
      nullish_def)

text \<open>
  C2, amended. After any sequence of \<^verbatim>\<open>init\<close>, \<^verbatim>\<open>update\<close>, \<^verbatim>\<open>setManualExposure\<close>,
  \<^verbatim>\<open>setEnabled\<close> and \<^verbatim>\<open>resetLuminance\<close> on a new controller, if auto-exposure is
  disabled then the current exposure is the argument of the most recent
  \<^verbatim>\<open>setManualExposure\<close> made since the last \<^verbatim>\<open>init\<close>, or, when there was none since, the
  manual value that \<^verbatim>\<open>init\<close> set (its exposure, 1 without one; 1 on a controller never
  initialised), whatever auto-exposure did while it was enabled. In a run without
  \<^verbatim>\<open>init\<close> this is the argument of the most recent \<^verbatim>\<open>setManualExposure\<close>, as the claim has
  it.
\<close>

theorem disabled_exposure_is_manual:
  "\<not> enabled (ae_run cs (ae_constructor r p c)) \<Longrightarrow>
   currentExposure (ae_run cs (ae_constructor r p c)) = Some (manualSetting 1 cs)
   \<and> ((\<forall>c \<in> set cs. \<forall>e a. c \<noteq> Init e a) \<longrightarrow>
        currentExposure (ae_run cs (ae_constructor r p c)) = Some (lastManualArgument 1 cs))"
  using manual_inv_run [OF manual_inv_constructor, of cs r p c]
    manualSetting_without_init [of cs 1]
  by (auto simp add: manual_inv_def)

text \<open>
  A run without \<^verbatim>\<open>init\<close> that enables auto-exposure, renders a black frame, sets the
  manual exposure to 2 while auto-exposure is on and disables it: the exposure is 2.
\<close>

theorem disabled_exposure_is_manual_witness:
  "\<not> enabled (ae_run [SetEnabled True, Update False (Inr blackFrame),
       SetManualExposure 2, SetEnabled False] (ae_constructor True None True))
   \<and> lastManualArgument 1 [SetEnabled True, Update False (Inr blackFrame),
       SetManualExposure 2, SetEnabled False] = 2
   \<and> currentExposure (ae_run [SetEnabled True, Update False (Inr blackFrame),
       SetManualExposure 2, SetEnabled False] (ae_constructor True None True)) = Some 2"
proof -
  have d: "\<not> enabled (ae_run [SetEnabled True, Update False (Inr blackFrame),
       SetManualExposure 2, SetEnabled False] (ae_constructor True None True))"
    by (simp add: ae_setEnabled_def setExposure_def Let_def)
  have i: "\<forall>c \<in> set [SetEnabled True, Update False (Inr blackFrame),
       SetManualExposure 2, SetEnabled False]. \<forall>e a. c \<noteq> Init e a"
    by simp
  from disabled_exposure_is_manual [OF d] d i show ?thesis by simp
qed

section \<open>When the scene is sampled\<close>

text \<open>
  C3, as the claim states it, fails: on a new controller, which has auto-exposure
  disabled, \<^verbatim>\<open>update(false)\<close> with a black frame renders into the luminance target, reads
  the pixels back and moves the average luminance from 0.5 to 0.325.
\<close>

theorem sampling_while_disabled_counterexample:
  "\<not> enabled (ae_constructor True None False)
   \<and> glCalls (ae_constructor True None False) = []
   \<and> glCalls (update False (Inr blackFrame) (ae_constructor True None False)) =
       [GetRenderTarget, SetRenderTargetLuminance, RenderScene,
        SetRenderTargetPrevious, ReadRenderTargetPixels]
   \<and> averageLuminance (ae_constructor True None False) = 0.5
   \<and> averageLuminance (update False (Inr blackFrame) (ae_constructor True None False)) = 0.325"
proof -
  let ?s = "ae_constructor True None False"
  have e: "\<not> enabled ?s" and g: "glCalls ?s = []" and a: "averageLuminance ?s = 0.5"
    and t: "luminanceRenderTarget ?s \<and> renderer ?s"
    by (simp_all add: ae_constructor_def)
  have u: "update False (Inr blackFrame) ?s = sampleSceneLuminance (Inr blackFrame) ?s"
    using e by (simp add: update_def apply_disabled sample_fields)
  have "fillBuffer (luminanceBuffer ?s) blackFrame = blackFrame"
    by (simp add: fillBuffer_same_length constructor_buffer)
  then have "averageLuminance (sampleSceneLuminance (Inr blackFrame) ?s) = 0.325"
    using t a by (simp add: sample_averageLuminance avgLuminance_blackFrame clamp_def lerp_def)
  moreover have "glCalls (sampleSceneLuminance (Inr blackFrame) ?s) = samplingCalls"
    using t g by (simp add: sample_glCalls)
  ultimately show ?thesis
    using e g a u by (simp add: samplingCalls_def)
qed

text \<open>
  C3, amended. The render into the luminance target and the readback are gated by
  \<^verbatim>\<open>unlitMode\<close> and by the presence of the render target and the renderer, not by
  \<^verbatim>\<open>enabled\<close>: \<^verbatim>\<open>update(true)\<close> leaves the state as it is; \<^verbatim>\<open>update(false)\<close> makes the
  sampling calls and smooths the average luminance from a successful readback whenever
  target and renderer exist, and neither otherwise; while auto-exposure is disabled it
  leaves the current, the auto and the manual exposure unchanged.
\<close>

theorem update_sampling_gate:
  "update True rb s = s
   \<and> glCalls (update False rb s) =
       (if luminanceRenderTarget s \<and> renderer s then glCalls s @ samplingCalls else glCalls s)
   \<and> averageLuminance (update False rb s) =
       (if luminanceRenderTarget s \<and> renderer s then
          (case rb of Inl e \<Rightarrow> averageLuminance s
           | Inr px \<Rightarrow> clamp (lerp (averageLuminance s)
                         (avgLuminance (fillBuffer (luminanceBuffer s) px)) 0.35) 0 1)
        else averageLuminance s)
   \<and> (\<not> enabled s \<longrightarrow>
        currentExposure (update False rb s) = currentExposure s
        \<and> autoExposureValue (update False rb s) = autoExposureValue s
        \<and> manualExposure (update False rb s) = manualExposure s)"
  by (simp add: update_def apply_fields sample_glCalls sample_averageLuminance
      apply_disabled sample_fields)

theorem update_sampling_gate_witness:
  "\<not> enabled (ae_constructor True None False)
   \<and> update True (Inr blackFrame) (ae_constructor True None False)
       = ae_constructor True None False
   \<and> glCalls (update False (Inr blackFrame) (ae_constructor True None False)) = samplingCalls
   \<and> currentExposure (update False (Inr blackFrame) (ae_constructor True None False)) = Some 1"
  using update_sampling_gate [of "Inr blackFrame" "ae_constructor True None False"]
  by (simp add: ae_constructor_def)

section \<open>A failed readback\<close>

text \<open>
  C8, as the claim states it, fails in one point: nothing is logged. With
  auto-exposure enabled on a new controller, an update whose readback throws leaves
  the console as empty as it was.
\<close>

theorem readback_failure_logged_counterexample:
  "console (ae_setEnabled True (ae_constructor True None False)) = []
   \<and> console (update False (Inl ReadPixelsUnavailable)
        (ae_setEnabled True (ae_constructor True None False))) = []"
  by (simp add: update_def apply_fields sample_fields ae_setEnabled_def ae_constructor_def)

text \<open>
  C8, amended. When the readback throws, the controller catches the failure: the update
  returns the state in which only the renderer calls were made and auto-exposure was
  then applied; nothing is written to the console; the average luminance keeps its
  previous value, and an enabled controller moves its exposure towards the target of
  that previous luminance.
\<close>

theorem readback_failure_ignored:
  "update False (Inl e) s =
     applyAutoExposure (if luminanceRenderTarget s \<and> renderer s
                        then s\<lparr> glCalls := glCalls s @ samplingCalls \<rparr> else s)
   \<and> averageLuminance (update False (Inl e) s) = averageLuminance s
   \<and> console (update False (Inl e) s) = console s
   \<and> (enabled s \<longrightarrow>
        autoExposureValue (update False (Inl e) s) =
          Some (lerp (nullish (autoExposureValue s) (targetExposure s)) (targetExposure s) smooth)
        \<and> currentExposure (update False (Inl e) s) = autoExposureValue (update False (Inl e) s))"
proof -
  let ?s1 = "sampleSceneLuminance (Inl e) s"
  have a: "averageLuminance ?s1 = averageLuminance s"
    by (simp add: sample_averageLuminance)
  have t: "targetExposure ?s1 = targetExposure s"
    using a by (rule targetExposure_cong)
  have "enabled s \<Longrightarrow> autoExposureValue (applyAutoExposure ?s1) =
          Some (lerp (nullish (autoExposureValue s) (targetExposure s)) (targetExposure s) smooth)
        \<and> currentExposure (applyAutoExposure ?s1) = autoExposureValue (applyAutoExposure ?s1)"
    by (simp add: applyAutoExposure_def setExposure_def Let_def sample_fields t)
  moreover have "update False (Inl e) s =
     applyAutoExposure (if luminanceRenderTarget s \<and> renderer s
                        then s\<lparr> glCalls := glCalls s @ samplingCalls \<rparr> else s)"
    by (simp only: update_def sample_failure if_False)
  moreover have "averageLuminance (update False (Inl e) s) = averageLuminance s"
    "console (update False (Inl e) s) = console s"
    by (simp_all add: update_def apply_fields sample_fields a)
  moreover have "update False (Inl e) s = applyAutoExposure ?s1"
    by (simp add: update_def)
  ultimately show ?thesis
    by simp
qed

text \<open>
  On an enabled new controller the failed readback leaves the luminance at 0.5, and
  the exposure goes from 1 to 0.988, towards the target 0.9 of that luminance.
\<close>

theorem readback_failure_ignored_witness:
  "enabled (ae_setEnabled True (ae_constructor True None False))
   \<and> averageLuminance (update False (Inl ReadPixelsUnavailable)
        (ae_setEnabled True (ae_constructor True None False))) = 0.5
   \<and> currentExposure (update False (Inl ReadPixelsUnavailable)
        (ae_setEnabled True (ae_constructor True None False))) = Some 0.988"
proof -
  let ?s = "ae_setEnabled True (ae_constructor True None False)"
  have e: "enabled ?s" and a: "averageLuminance ?s = 0.5"
    and v: "autoExposureValue ?s = Some 1"
    by (simp_all add: ae_setEnabled_def ae_constructor_def Let_def nullish_def)
  have t: "targetExposure ?s = 0.9"
    using targetExposure_inverse [of ?s] unfolding a by (simp add: clamp_def)
  from readback_failure_ignored [of ReadPixelsUnavailable ?s] e
  have "averageLuminance (update False (Inl ReadPixelsUnavailable) ?s) = averageLuminance ?s"
    and "currentExposure (update False (Inl ReadPixelsUnavailable) ?s) =
      Some (lerp (nullish (autoExposureValue ?s) (targetExposure ?s)) (targetExposure ?s) smooth)"
    by metis+
  then show ?thesis
    unfolding a v t using e by (simp add: nullish_def lerp_def smooth_def)
qed

section \<open>Resetting the luminance\<close>

text \<open>
  C6. \<^verbatim>\<open>resetLuminance()\<close> sets the average luminance to the target 0.45 and the auto
  exposure value to the current exposure (to the manual exposure when there is none,
  to 1 when there is neither). After \<^verbatim>\<open>resetLuminance()\<close> and one \<^verbatim>\<open>update()\<close> the auto
  exposure value is within one smoothing step of the current exposure \<open>c\<close> from before
  the reset: it is \<open>c\<close> moved by the factor 0.12 towards the target just computed when
  auto-exposure is enabled and the scene is lit, and \<open>c\<close> itself otherwise.
\<close>

theorem resetLuminance_no_jump:
  "averageLuminance (resetLuminance s) = 0.45
   \<and> autoExposureValue (resetLuminance s) =
       Some (nullish (currentExposure s) (nullish (manualExposure s) 1))
   \<and> (currentExposure s = Some c \<longrightarrow>
        (\<exists>a. autoExposureValue (update unlitMode rb (resetLuminance s)) = Some a
           \<and> \<bar>a - c\<bar> \<le> 0.12 *
               \<bar>targetExposure (sampleSceneLuminance rb (resetLuminance s)) - c\<bar>
           \<and> (enabled s \<and> \<not> unlitMode \<longrightarrow>
                a = lerp c (targetExposure (sampleSceneLuminance rb (resetLuminance s))) 0.12)
           \<and> (\<not> enabled s \<or> unlitMode \<longrightarrow> a = c)))"
proof -
  let ?r = "resetLuminance s"
  let ?T = "targetExposure (sampleSceneLuminance rb ?r)"
  have r: "averageLuminance ?r = 0.45"
    "autoExposureValue ?r = Some (nullish (currentExposure s) (nullish (manualExposure s) 1))"
    "enabled ?r = enabled s"
    by (simp_all add: resetLuminance_def target_def)
  have "\<exists>a. autoExposureValue (update unlitMode rb ?r) = Some a
           \<and> \<bar>a - c\<bar> \<le> 0.12 * \<bar>?T - c\<bar>
           \<and> (enabled s \<and> \<not> unlitMode \<longrightarrow> a = lerp c ?T 0.12)
           \<and> (\<not> enabled s \<or> unlitMode \<longrightarrow> a = c)"
    if c: "currentExposure s = Some c"
  proof (cases "enabled s \<and> \<not> unlitMode")
    case True
    then have "autoExposureValue (update unlitMode rb ?r) = Some (lerp c ?T 0.12)"
      using c r by (simp add: update_def applyAutoExposure_def setExposure_def Let_def
          sample_fields nullish_def smooth_def)
    moreover have "\<bar>lerp c ?T 0.12 - c\<bar> = 0.12 * \<bar>?T - c\<bar>"
      unfolding lerp_diff abs_mult by simp
    ultimately show ?thesis using True by simp
  next
    case False
    then have "autoExposureValue (update unlitMode rb ?r) = Some c"
      using c r by (auto simp add: update_def apply_disabled sample_fields nullish_def)
    then show ?thesis using False by auto
  qed
  with r show ?thesis by blast
qed

text \<open>
  An enabled controller at exposure 1 is reset and updated with a black frame: the
  luminance goes to 0.2925, the target to \<open>0.45 / 0.2925 = 20 / 13\<close>, and the auto
  exposure value to \<open>1 + 0.12 * (20 / 13 - 1)\<close>.
\<close>

theorem resetLuminance_no_jump_witness:
  "currentExposure (ae_setEnabled True (ae_constructor True None False)) = Some 1
   \<and> autoExposureValue (update False (Inr blackFrame)
        (resetLuminance (ae_setEnabled True (ae_constructor True None False))))
       = Some (1 + 0.12 * (20 / 13 - 1))"
proof -
  let ?s = "ae_setEnabled True (ae_constructor True None False)"
  let ?s1 = "sampleSceneLuminance (Inr blackFrame) (resetLuminance ?s)"
  have c: "currentExposure ?s = Some 1" and e: "enabled ?s"
    and t: "luminanceRenderTarget (resetLuminance ?s) \<and> renderer (resetLuminance ?s)"
    and b: "luminanceBuffer (resetLuminance ?s) = blackFrame"
    and l: "averageLuminance (resetLuminance ?s) = 0.45"
    by (simp_all add: ae_setEnabled_def ae_constructor_def resetLuminance_def Let_def target_def)
  have a: "averageLuminance ?s1 = 0.2925"
    using t by (simp add: sample_averageLuminance b l fillBuffer_same_length
        avgLuminance_blackFrame lerp_def clamp_def)
  have "targetExposure ?s1 = 20 / 13"
    using targetExposure_inverse [of ?s1] unfolding a by (simp add: clamp_def)
  with resetLuminance_no_jump [of ?s 1 False "Inr blackFrame"] c e show ?thesis
    by (auto simp add: lerp_def)
qed

section \<open>A scene at the target luminance\<close>

lemma sumLuminance_pixels:
  "sumLuminance (concat (replicate n [r, g, b, a]) @ rest) acc =
     sumLuminance rest (acc + real n * pixelValue r g b)"
proof (induction n arbitrary: acc)
  case 0
  show ?case by simp
next
  case (Suc n)
  have "acc + pixelValue r g b + real n * pixelValue r g b = acc + real (Suc n) * pixelValue r g b"
    by (simp add: distrib_right)
  then have "sumLuminance rest (acc + pixelValue r g b + real n * pixelValue r g b) =
      sumLuminance rest (acc + real (Suc n) * pixelValue r g b)"
    by (rule arg_cong)
  with Suc.IH [of "acc + pixelValue r g b"] show ?case
    by (simp del: of_nat_Suc)
qed

lemma length_pixels: "length (concat (replicate n [r, g, b, a])) = 4 * n"
  by (induction n) simp_all

lemma length_targetFrame: "length targetFrame = 256"
  by (simp add: targetFrame_def length_pixels)

lemma avgLuminance_targetFrame: "avgLuminance targetFrame = 0.45"
proof -
  have "sumLuminance targetFrame 0 = 28.8"
    unfolding targetFrame_def sumLuminance_pixels
    using sumLuminance_pixels [of 16 114 114 114 255 "[]"]
    by (simp add: pixelValue_def)
  then show ?thesis
    by (simp add: avgLuminance_def length_targetFrame)
qed

lemma update_targetFrame:
  assumes "enabled s \<and> luminanceRenderTarget s \<and> renderer s
           \<and> length (luminanceBuffer s) = 256
           \<and> averageLuminance s = L \<and> autoExposureValue s = Some a"
    and "0.18 \<le> 0.65 * L + 0.1575" and "0.65 * L + 0.1575 \<le> 0.65"
  shows "enabled (update False (Inr targetFrame) s)
       \<and> luminanceRenderTarget (update False (Inr targetFrame) s)
       \<and> renderer (update False (Inr targetFrame) s)
       \<and> length (luminanceBuffer (update False (Inr targetFrame) s)) = 256
       \<and> averageLuminance (update False (Inr targetFrame) s) = 0.65 * L + 0.1575
       \<and> autoExposureValue (update False (Inr targetFrame) s) =
           Some (0.88 * a + 0.12 * (0.45 / (0.65 * L + 0.1575)))"
proof -
  let ?s1 = "sampleSceneLuminance (Inr targetFrame) s"
  let ?L = "0.65 * L + 0.1575"
  have f: "fillBuffer (luminanceBuffer s) targetFrame = targetFrame"
    using assms(1) by (simp add: fillBuffer_same_length length_targetFrame)
  have "averageLuminance ?s1 = clamp (lerp L 0.45 0.35) 0 1"
    using assms(1) by (simp add: sample_averageLuminance f avgLuminance_targetFrame)
  moreover have "lerp L 0.45 0.35 = ?L"
    by (simp add: lerp_def)
  ultimately have a: "averageLuminance ?s1 = ?L"
    using assms(2,3) by (simp add: clamp_def)
  have "targetExposure ?s1 = clamp (0.45 / ?L) 0.5 2.5"
    using targetExposure_inverse [of ?s1] assms(2,3) unfolding a by simp
  moreover have "0.5 \<le> 0.45 / ?L" "0.45 / ?L \<le> 2.5"
    using assms(2,3) by (simp_all add: field_simps)
  ultimately have t: "targetExposure ?s1 = 0.45 / ?L"
    by (simp add: clamp_def)
  have "autoExposureValue (update False (Inr targetFrame) s) =
      Some (lerp a (0.45 / ?L) smooth)"
    using assms(1)
    by (simp add: update_def applyAutoExposure_def setExposure_def Let_def sample_fields t
        nullish_def)
  moreover have "lerp a (0.45 / ?L) smooth = 0.88 * a + 0.12 * (0.45 / ?L)"
    by (simp add: lerp_def smooth_def)
  moreover have "length (luminanceBuffer (update False (Inr targetFrame) s)) = 256"
    using assms(1) by (simp add: update_def apply_fields sampleSceneLuminance_def Let_def f
        length_targetFrame)
  ultimately show ?thesis
    using assms(1) a by (simp add: update_def apply_fields sample_fields)
qed

text \<open>
  C5, as the claim states it, fails. Auto-exposure is enabled on a new controller and
  every update reads back a frame whose average luminance is the target 0.45. The
  smoothed luminance starts at 0.5 and only approaches 0.45, so the target exposure
  stays below 1 for a while: the auto exposure value, which starts at 1, falls to
  \<open>4786 / 4825\<close> with the first update, and rises again from the fourth update to the
  fifth. It neither stays at 1 nor moves in one direction.
\<close>

theorem constant_raw_luminance_counterexample:
  "enabled (ae_setEnabled True (ae_constructor True None False))
   \<and> avgLuminance targetFrame = target
   \<and> autoExposureValue (ae_setEnabled True (ae_constructor True None False)) = Some 1
   \<and> autoExposureValue (runUpdates (everyFrame targetFrame) 1
        (ae_setEnabled True (ae_constructor True None False))) = Some (4786 / 4825)
   \<and> autoExposureValue (runUpdates (everyFrame targetFrame) 4
        (ae_setEnabled True (ae_constructor True None False)))
       = Some (30492861759928713104944 / 30961487504693198828125)
   \<and> autoExposureValue (runUpdates (everyFrame targetFrame) 5
        (ae_setEnabled True (ae_constructor True None False)))
       = Some (22244429026167767658889745797024 / 22579665592881104453062275390625)
   \<and> (4786 / 4825 :: real) < 1
   \<and> (30492861759928713104944 / 30961487504693198828125 :: real)
       < 22244429026167767658889745797024 / 22579665592881104453062275390625"
proof -
  let ?s = "ae_setEnabled True (ae_constructor True None False)"
  let ?u = "update False (Inr targetFrame)"
  have s0: "enabled ?s \<and> luminanceRenderTarget ?s \<and> renderer ?s
      \<and> length (luminanceBuffer ?s) = 256
      \<and> averageLuminance ?s = 1 / 2 \<and> autoExposureValue ?s = Some 1"
    by (simp add: ae_setEnabled_def ae_constructor_def Let_def nullish_def length_blackFrame)
  have s1: "enabled (?u ?s) \<and> luminanceRenderTarget (?u ?s) \<and> renderer (?u ?s)
      \<and> length (luminanceBuffer (?u ?s)) = 256
      \<and> averageLuminance (?u ?s) = 193 / 400 \<and> autoExposureValue (?u ?s) = Some (4786 / 4825)"
    using update_targetFrame [OF s0] by simp
  have s2: "enabled (?u (?u ?s)) \<and> luminanceRenderTarget (?u (?u ?s)) \<and> renderer (?u (?u ?s))
      \<and> length (luminanceBuffer (?u (?u ?s))) = 256
      \<and> averageLuminance (?u (?u ?s)) = 3769 / 8000
      \<and> autoExposureValue (?u (?u ?s)) = Some (448955548 / 454635625)"
    using update_targetFrame [OF s1] by simp
  have s3: "enabled (?u (?u (?u ?s))) \<and> luminanceRenderTarget (?u (?u (?u ?s)))
      \<and> renderer (?u (?u (?u ?s)))
      \<and> length (luminanceBuffer (?u (?u (?u ?s)))) = 256
      \<and> averageLuminance (?u (?u (?u ?s))) = 74197 / 160000
      \<and> autoExposureValue (?u (?u (?u ?s))) = Some (831046700489032 / 843314986703125)"
    using update_targetFrame [OF s2] by simp
  have s4: "enabled (?u (?u (?u (?u ?s)))) \<and> luminanceRenderTarget (?u (?u (?u (?u ?s))))
      \<and> renderer (?u (?u (?u (?u ?s))))
      \<and> length (luminanceBuffer (?u (?u (?u (?u ?s))))) = 256
      \<and> averageLuminance (?u (?u (?u (?u ?s)))) = 1468561 / 3200000
      \<and> autoExposureValue (?u (?u (?u (?u ?s))))
          = Some (30492861759928713104944 / 30961487504693198828125)"
    using update_targetFrame [OF s3] by simp
  have s5: "autoExposureValue (?u (?u (?u (?u (?u ?s)))))
          = Some (22244429026167767658889745797024 / 22579665592881104453062275390625)"
    using update_targetFrame [OF s4] by simp
  have r: "runUpdates (everyFrame targetFrame) 1 ?s = ?u ?s"
    "runUpdates (everyFrame targetFrame) 4 ?s = ?u (?u (?u (?u ?s)))"
    "runUpdates (everyFrame targetFrame) 5 ?s = ?u (?u (?u (?u (?u ?s))))"
    by (simp_all add: eval_nat_numeral everyFrame_def)
  show ?thesis
    unfolding r using s0 s1 s4 s5 by (simp add: avgLuminance_targetFrame target_def)
qed

text \<open>
  What remains of C5 rests on three bounds: the smoothing of the luminance brings it
  closer to 0.45 by the factor 0.65, the target exposure is within ten times the
  distance of the luminance from 0.45 of the value 1, and the smoothing of the exposure
  brings it closer to its target by the factor 0.88.
\<close>

lemma clamp_contracts:
  assumes "lo \<le> c" "c \<le> hi"
  shows "\<bar>clamp x lo hi - c\<bar> \<le> \<bar>x - c\<bar>"
  using assms by (simp add: clamp_def max_def min_def abs_if)

lemma luminance_smoothing_contracts:
  "\<bar>clamp (lerp L 0.45 0.35) 0 1 - 0.45\<bar> \<le> 0.65 * \<bar>L - 0.45\<bar>"
proof -
  have "\<bar>clamp (lerp L 0.45 0.35) 0 1 - 0.45\<bar> \<le> \<bar>lerp L 0.45 0.35 - 0.45\<bar>"
    by (rule clamp_contracts) simp_all
  also have "lerp L 0.45 0.35 - 0.45 = 0.65 * (L - 0.45)"
    by (simp add: lerp_def algebra_simps)
  also have "\<bar>0.65 * (L - 0.45)\<bar> = 0.65 * \<bar>L - 0.45\<bar>"
    unfolding abs_mult by simp
  finally show ?thesis .
qed

lemma targetExposure_near_one:
  "\<bar>targetExposure s - 1\<bar> \<le> 10 * \<bar>averageLuminance s - 0.45\<bar>"
proof (cases "\<bar>averageLuminance s - 0.45\<bar> < 0.15")
  case False
  moreover have "\<bar>targetExposure s - 1\<bar> \<le> 1.5"
    using targetExposure_bounds [of s] by (simp add: abs_if)
  ultimately show ?thesis by simp
next
  case True
  let ?L = "averageLuminance s"
  from True have r: "0.3 < ?L" "?L < 0.6" by (simp_all add: abs_if split: if_splits)
  then have "targetExposure s = clamp (0.45 / ?L) 0.5 2.5"
    using targetExposure_inverse [of s] by simp
  moreover from r have "0.5 \<le> 0.45 / ?L" "0.45 / ?L \<le> 2.5"
    by (simp_all add: field_simps)
  ultimately have t: "targetExposure s = 0.45 / ?L" by (simp add: clamp_def)
  have "0.45 / ?L - 1 = (0.45 - ?L) / ?L"
    using r by (simp add: field_simps)
  then have "\<bar>targetExposure s - 1\<bar> = \<bar>(0.45 - ?L) / ?L\<bar>"
    unfolding t by (rule arg_cong)
  also have "\<dots> = \<bar>0.45 - ?L\<bar> / \<bar>?L\<bar>"
    by (rule abs_divide)
  also have "\<bar>0.45 - ?L\<bar> = \<bar>?L - 0.45\<bar>"
    by (rule abs_minus_commute)
  also have "\<bar>?L\<bar> = ?L"
    using r by simp
  finally have "\<bar>targetExposure s - 1\<bar> = \<bar>?L - 0.45\<bar> / ?L" .
  also have "\<dots> \<le> \<bar>?L - 0.45\<bar> / 0.3"
    using r by (intro divide_left_mono) simp_all
  also have "\<dots> \<le> 10 * \<bar>?L - 0.45\<bar>" by simp
  finally show ?thesis .
qed

text \<open>One update with a working sampler and a frame of average luminance 0.45.\<close>

lemma update_target_frame_step:
  assumes "enabled s" "luminanceRenderTarget s" "renderer s"
    and "length px = length (luminanceBuffer s)" "avgLuminance px = target"
  shows "enabled (update False (Inr px) s)"
    and "luminanceRenderTarget (update False (Inr px) s)"
    and "renderer (update False (Inr px) s)"
    and "length (luminanceBuffer (update False (Inr px) s)) = length (luminanceBuffer s)"
    and "averageLuminance (update False (Inr px) s)
          = clamp (lerp (averageLuminance s) 0.45 0.35) 0 1"
    and "autoExposureValue (update False (Inr px) s) =
          Some (lerp (nullish (autoExposureValue s) (targetExposure (update False (Inr px) s)))
                  (targetExposure (update False (Inr px) s)) smooth)"
proof -
  let ?s1 = "sampleSceneLuminance (Inr px) s"
  have "averageLuminance ?s1 = clamp (lerp (averageLuminance s) (avgLuminance px) 0.35) 0 1"
    using assms(2-4) by (simp add: sample_averageLuminance fillBuffer_same_length)
  then have a: "averageLuminance ?s1 = clamp (lerp (averageLuminance s) 0.45 0.35) 0 1"
    unfolding assms(5) target_def .
  have u: "update False (Inr px) s = applyAutoExposure ?s1"
    by (simp add: update_def)
  have t: "targetExposure (update False (Inr px) s) = targetExposure ?s1"
    unfolding u by (rule targetExposure_cong) (simp add: apply_fields)
  show "enabled (update False (Inr px) s)" "luminanceRenderTarget (update False (Inr px) s)"
    "renderer (update False (Inr px) s)"
    using assms by (simp_all add: u apply_fields sample_fields)
  show "length (luminanceBuffer (update False (Inr px) s)) = length (luminanceBuffer s)"
    using assms by (simp add: u apply_fields sampleSceneLuminance_def Let_def length_fillBuffer)
  show "averageLuminance (update False (Inr px) s)
          = clamp (lerp (averageLuminance s) 0.45 0.35) 0 1"
    using a by (simp add: u apply_fields)
  show "autoExposureValue (update False (Inr px) s) =
          Some (lerp (nullish (autoExposureValue s) (targetExposure (update False (Inr px) s)))
                  (targetExposure (update False (Inr px) s)) smooth)"
    unfolding t using assms(1)
    by (simp add: u applyAutoExposure_def setExposure_def Let_def sample_fields)
qed

lemma geometric_step:
  assumes "\<bar>a - 1\<bar> \<le> B * 0.88 ^ n - 4 * D * 0.65 ^ n" "\<bar>T - 1\<bar> \<le> 10 * (D * 0.65 ^ Suc n)"
    and "0 \<le> D"
  shows "\<bar>lerp a T 0.12 - 1\<bar> \<le> B * 0.88 ^ Suc n - 4 * D * 0.65 ^ Suc n"
proof -
  have "lerp a T 0.12 - 1 = 0.88 * (a - 1) + 0.12 * (T - 1)"
    unfolding lerp_def by algebra
  moreover have "\<bar>0.88 * (a - 1) + 0.12 * (T - 1)\<bar>
      \<le> \<bar>0.88 * (a - 1)\<bar> + \<bar>0.12 * (T - 1)\<bar>"
    by (rule abs_triangle_ineq)
  moreover have "\<bar>0.88 * (a - 1)\<bar> + \<bar>0.12 * (T - 1)\<bar> = 0.88 * \<bar>a - 1\<bar> + 0.12 * \<bar>T - 1\<bar>"
    unfolding abs_mult by simp
  ultimately have "\<bar>lerp a T 0.12 - 1\<bar> \<le> 0.88 * \<bar>a - 1\<bar> + 0.12 * \<bar>T - 1\<bar>"
    by (simp only:)
  also have "\<dots> \<le> 0.88 * (B * 0.88 ^ n - 4 * D * 0.65 ^ n) + 0.12 * (10 * (D * 0.65 ^ Suc n))"
    using assms(1,2) by (intro add_mono mult_left_mono) simp_all
  also have "\<dots> = B * 0.88 ^ Suc n - 2.74 * (D * 0.65 ^ n)"
    unfolding power_Suc by algebra
  also have "\<dots> \<le> B * 0.88 ^ Suc n - 2.6 * (D * 0.65 ^ n)"
  proof -
    have "0 \<le> D * 0.65 ^ n" using assms(3) by simp
    then show ?thesis by simp
  qed
  also have "\<dots> = B * 0.88 ^ Suc n - 4 * D * 0.65 ^ Suc n"
    unfolding power_Suc by algebra
  finally show ?thesis .
qed

lemma runUpdates_bounds:
  assumes "enabled s" "luminanceRenderTarget s" "renderer s"
    and "autoExposureValue s = Some a0"
    and "\<forall>n. \<exists>px. f n = Inr px \<and> length px = length (luminanceBuffer s)
            \<and> avgLuminance px = target"
  shows "enabled (runUpdates f n s) \<and> luminanceRenderTarget (runUpdates f n s)
     \<and> renderer (runUpdates f n s)
     \<and> length (luminanceBuffer (runUpdates f n s)) = length (luminanceBuffer s)
     \<and> \<bar>averageLuminance (runUpdates f n s) - 0.45\<bar>
          \<le> \<bar>averageLuminance s - 0.45\<bar> * 0.65 ^ n
     \<and> (\<exists>a. autoExposureValue (runUpdates f n s) = Some a
           \<and> \<bar>a - 1\<bar> \<le> (\<bar>a0 - 1\<bar> + 4 * \<bar>averageLuminance s - 0.45\<bar>) * 0.88 ^ n
                          - 4 * \<bar>averageLuminance s - 0.45\<bar> * 0.65 ^ n)"
proof (induction n)
  case 0
  from assms show ?case by simp
next
  case (Suc n)
  let ?s = "runUpdates f n s"
  let ?D = "\<bar>averageLuminance s - 0.45\<bar>"
  let ?B = "\<bar>a0 - 1\<bar> + 4 * ?D"
  from assms(5) obtain px where px: "f n = Inr px" "length px = length (luminanceBuffer s)"
    "avgLuminance px = target" by blast
  from Suc have e: "enabled ?s" "luminanceRenderTarget ?s" "renderer ?s"
    and len: "length (luminanceBuffer ?s) = length (luminanceBuffer s)"
    and L: "\<bar>averageLuminance ?s - 0.45\<bar> \<le> ?D * 0.65 ^ n"
    by simp_all
  from Suc obtain a where a: "autoExposureValue ?s = Some a"
    "\<bar>a - 1\<bar> \<le> ?B * 0.88 ^ n - 4 * ?D * 0.65 ^ n" by blast
  let ?s' = "update False (Inr px) ?s"
  have pl: "length px = length (luminanceBuffer ?s)" using px len by simp
  note u = update_target_frame_step [OF e pl px(3)]
  have "\<bar>averageLuminance ?s' - 0.45\<bar> \<le> 0.65 * \<bar>averageLuminance ?s - 0.45\<bar>"
    unfolding u(5) by (rule luminance_smoothing_contracts)
  also have "\<dots> \<le> 0.65 * (?D * 0.65 ^ n)"
    using L by simp
  finally have L': "\<bar>averageLuminance ?s' - 0.45\<bar> \<le> ?D * 0.65 ^ Suc n"
    by simp
  have "\<bar>targetExposure ?s' - 1\<bar> \<le> 10 * \<bar>averageLuminance ?s' - 0.45\<bar>"
    by (rule targetExposure_near_one)
  also have "\<dots> \<le> 10 * (?D * 0.65 ^ Suc n)"
    using L' by (intro mult_left_mono) simp_all
  finally have T: "\<bar>targetExposure ?s' - 1\<bar> \<le> 10 * (?D * 0.65 ^ Suc n)" .
  have "autoExposureValue ?s' = Some (lerp a (targetExposure ?s') 0.12)"
    using u(6) a(1) by (simp add: nullish_def smooth_def)
  moreover have "\<bar>lerp a (targetExposure ?s') 0.12 - 1\<bar>
      \<le> ?B * 0.88 ^ Suc n - 4 * ?D * 0.65 ^ Suc n"
    using a(2) T by (rule geometric_step) simp
  ultimately have "\<exists>a'. autoExposureValue ?s' = Some a'
      \<and> \<bar>a' - 1\<bar> \<le> ?B * 0.88 ^ Suc n - 4 * ?D * 0.65 ^ Suc n"
    by blast
  with u(1-4) len L' show ?case
    unfolding runUpdates.simps px(1) by simp
qed

lemma geometric_null: "0 \<le> c \<Longrightarrow> c < 1 \<Longrightarrow> (\<lambda>n. B * c ^ n) \<longlonglongrightarrow> (0::real)"
  using tendsto_mult [OF tendsto_const [of B] LIMSEQ_realpow_zero [of c]] by simp

lemma tendsto_by_abs_bound:
  fixes A :: "nat \<Rightarrow> real"
  assumes "\<And>n. \<bar>A n - l\<bar> \<le> B * c ^ n" "0 \<le> c" "c < 1"
  shows "A \<longlonglongrightarrow> l"
proof -
  have "(\<lambda>n. l - B * c ^ n) \<longlonglongrightarrow> l - 0" "(\<lambda>n. l + B * c ^ n) \<longlonglongrightarrow> l + 0"
    using geometric_null [OF assms(2,3), of B]
    by (intro tendsto_diff tendsto_add tendsto_const; simp)+
  moreover have "l - B * c ^ n \<le> A n" "A n \<le> l + B * c ^ n" for n
    using assms(1) [of n] by (simp_all add: abs_le_iff)
  ultimately show ?thesis
    by (intro tendsto_sandwich [of "\<lambda>n. l - B * c ^ n" A sequentially "\<lambda>n. l + B * c ^ n" l])
      simp_all
qed

lemma runUpdates_shift:
  "runUpdates f (Suc n) s = runUpdates (\<lambda>k. f (Suc k)) n (update False (f 0) s)"
  by (induction n) simp_all

text \<open>
  C5, amended. If auto-exposure is enabled, the luminance render target and the renderer
  exist and every update reads back a frame whose average luminance is the target
  0.45, then, from whatever luminance and exposure the controller starts, across
  repeated updates the smoothed average luminance converges to 0.45 and the auto
  exposure value converges to the clamped value of \<open>target / target\<close>, which is 1 and
  lies in \<open>[0.5, 2.5]\<close>. The approach need not be monotone, and a value that is at 1 need
  not stay there, as long as the smoothed luminance is still on its way to 0.45. The
  limits are those of the arithmetic read over the reals.
\<close>

theorem constant_sampled_luminance_converges:
  assumes "enabled s" and "luminanceRenderTarget s" and "renderer s"
    and "\<forall>n. \<exists>px. f n = Inr px \<and> length px = length (luminanceBuffer s)
            \<and> avgLuminance px = target"
  shows "\<exists>A. (\<forall>n. autoExposureValue (runUpdates f (Suc n) s) = Some (A n))
          \<and> A \<longlonglongrightarrow> clamp (target / target) minExposure maxExposure
          \<and> clamp (target / target) minExposure maxExposure = 1
          \<and> (\<lambda>n. averageLuminance (runUpdates f n s)) \<longlonglongrightarrow> target"
proof -
  let ?s1 = "update False (f 0) s"
  let ?f = "\<lambda>k. f (Suc k)"
  from assms(4) obtain px where px: "f 0 = Inr px" "length px = length (luminanceBuffer s)"
    "avgLuminance px = target" by blast
  note u = update_target_frame_step [OF assms(1-3) px(2,3), folded px(1)]
  from u(6) obtain a1 where a1: "autoExposureValue ?s1 = Some a1" by blast
  have fr: "\<forall>n. \<exists>px. ?f n = Inr px \<and> length px = length (luminanceBuffer ?s1)
            \<and> avgLuminance px = target"
    using assms(4) u(4) by simp
  let ?D = "\<bar>averageLuminance ?s1 - 0.45\<bar>"
  let ?B = "\<bar>a1 - 1\<bar> + 4 * ?D"
  define A where "A n = nullish (autoExposureValue (runUpdates ?f n ?s1)) 0" for n
  note b = runUpdates_bounds [OF u(1-3) a1 fr]
  have A: "autoExposureValue (runUpdates f (Suc n) s) = Some (A n)"
    and Ab: "\<bar>A n - 1\<bar> \<le> ?B * 0.88 ^ n"
    and Lb: "\<bar>averageLuminance (runUpdates f (Suc n) s) - target\<bar> \<le> ?D * 0.65 ^ n" for n
  proof -
    from b [of n] obtain a where a: "autoExposureValue (runUpdates ?f n ?s1) = Some a"
      "\<bar>a - 1\<bar> \<le> ?B * 0.88 ^ n - 4 * ?D * 0.65 ^ n" by blast
    have "0 \<le> 4 * ?D * 0.65 ^ n" by simp
    with a(2) have "\<bar>a - 1\<bar> \<le> ?B * 0.88 ^ n" by linarith
    with a(1) show "autoExposureValue (runUpdates f (Suc n) s) = Some (A n)"
      "\<bar>A n - 1\<bar> \<le> ?B * 0.88 ^ n"
      unfolding runUpdates_shift by (simp_all add: A_def nullish_def)
    from b [of n] show "\<bar>averageLuminance (runUpdates f (Suc n) s) - target\<bar> \<le> ?D * 0.65 ^ n"
      unfolding runUpdates_shift by (simp add: target_def)
  qed
  have "A \<longlonglongrightarrow> 1"
    using Ab by (rule tendsto_by_abs_bound) simp_all
  moreover have c: "clamp (target / target) minExposure maxExposure = 1"
    by (simp add: clamp_def target_def minExposure_def maxExposure_def)
  moreover have "(\<lambda>n. averageLuminance (runUpdates f (Suc n) s)) \<longlonglongrightarrow> target"
    using Lb by (rule tendsto_by_abs_bound) simp_all
  then have "(\<lambda>n. averageLuminance (runUpdates f n s)) \<longlonglongrightarrow> target"
    by (rule LIMSEQ_imp_Suc)
  ultimately have "(\<forall>n. autoExposureValue (runUpdates f (Suc n) s) = Some (A n))
          \<and> A \<longlonglongrightarrow> clamp (target / target) minExposure maxExposure
          \<and> clamp (target / target) minExposure maxExposure = 1
          \<and> (\<lambda>n. averageLuminance (runUpdates f n s)) \<longlonglongrightarrow> target"
    using A by simp
  then show ?thesis by (rule exI [of _ A])
qed

text \<open>
  The run of the counterexample, in which the exposure first falls and then rises,
  converges to 1 all the same.
\<close>

theorem constant_sampled_luminance_converges_witness:
  "enabled (ae_setEnabled True (ae_constructor True None False))
   \<and> averageLuminance (ae_setEnabled True (ae_constructor True None False)) = 0.5
   \<and> avgLuminance targetFrame = target
   \<and> (\<exists>A. (\<forall>n. autoExposureValue (runUpdates (everyFrame targetFrame) (Suc n)
                (ae_setEnabled True (ae_constructor True None False))) = Some (A n))
          \<and> A \<longlonglongrightarrow> 1)
   \<and> (\<lambda>n. averageLuminance (runUpdates (everyFrame targetFrame) n
          (ae_setEnabled True (ae_constructor True None False)))) \<longlonglongrightarrow> target"
proof -
  let ?s = "ae_setEnabled True (ae_constructor True None False)"
  have h: "enabled ?s" "luminanceRenderTarget ?s" "renderer ?s"
    "\<forall>n. \<exists>px. everyFrame targetFrame n = Inr px \<and> length px = length (luminanceBuffer ?s)
            \<and> avgLuminance px = target"
    and a: "averageLuminance ?s = 0.5"
    by (simp_all add: ae_setEnabled_def ae_constructor_def Let_def everyFrame_def
        length_targetFrame avgLuminance_targetFrame target_def length_blackFrame)
  from constant_sampled_luminance_converges [OF h] obtain A where
    "\<forall>n. autoExposureValue (runUpdates (everyFrame targetFrame) (Suc n) ?s) = Some (A n)"
    "A \<longlonglongrightarrow> clamp (target / target) minExposure maxExposure"
    "clamp (target / target) minExposure maxExposure = 1"
    "(\<lambda>n. averageLuminance (runUpdates (everyFrame targetFrame) n ?s)) \<longlonglongrightarrow> target"
    by blast
  then have "(\<forall>n. autoExposureValue (runUpdates (everyFrame targetFrame) (Suc n) ?s) = Some (A n))
      \<and> A \<longlonglongrightarrow> 1"
    and l: "(\<lambda>n. averageLuminance (runUpdates (everyFrame targetFrame) n ?s)) \<longlonglongrightarrow> target"
    by simp_all
  then have "\<exists>A. (\<forall>n. autoExposureValue (runUpdates (everyFrame targetFrame) (Suc n) ?s) = Some (A n))
      \<and> A \<longlonglongrightarrow> 1"
    by (intro exI [of _ A])
  with h(1) a l show ?thesis
    by (simp add: avgLuminance_targetFrame target_def)
qed

section \<open>Rotation of the environment and of the lighting rig\<close>

subsection \<open>The normalisation in exact arithmetic\<close>

lemma js_rem_nonneg:
  assumes "0 \<le> a"
  shows "js_rem a 360 = a - 360 * of_int \<lfloor>a / 360\<rfloor>"
  using assms by (simp add: js_rem_def js_trunc_def)

lemma floor_mod_range: "0 \<le> (a::real) - 360 * of_int \<lfloor>a / 360\<rfloor> \<and> a - 360 * of_int \<lfloor>a / 360\<rfloor> < 360"
proof -
  have "of_int \<lfloor>a / 360\<rfloor> \<le> a / 360" "a / 360 < of_int \<lfloor>a / 360\<rfloor> + 1"
    by linarith+
  then show ?thesis by (simp add: field_simps)
qed

lemma normalized_floor:
  "js_rem (js_rem v 360 + 360) 360 = v - 360 * of_int \<lfloor>v / 360\<rfloor>"
proof (cases "0 \<le> v")
  case True
  let ?r = "v - 360 * of_int \<lfloor>v / 360\<rfloor>"
  have r: "js_rem v 360 = ?r" using True by (rule js_rem_nonneg)
  have rng: "0 \<le> ?r \<and> ?r < 360" by (rule floor_mod_range)
  then have "\<lfloor>(?r + 360) / 360\<rfloor> = 1"
    by (intro floor_unique) (simp_all add: field_simps)
  moreover have "0 \<le> (?r + 360) / 360" using rng by simp
  ultimately have "js_rem (?r + 360) 360 = ?r"
    by (simp add: js_rem_def js_trunc_def)
  with r show ?thesis by simp
next
  case False
  let ?c = "\<lceil>v / 360\<rceil>"
  let ?r = "v - 360 * of_int ?c"
  from False have r: "js_rem v 360 = ?r"
    by (simp add: js_rem_def js_trunc_def)
  have c: "v / 360 \<le> of_int ?c" "of_int ?c - 1 < v / 360" by linarith+
  then have "v \<le> 360 * of_int ?c" "360 * (of_int ?c - 1) < v"
    by (simp_all only: pos_divide_le_eq pos_less_divide_eq mult.commute)
  then have rng: "- 360 < ?r" "?r \<le> 0" by (simp_all add: algebra_simps)
  show ?thesis
  proof (cases "?r = 0")
    case True
    then have "v / 360 = of_int ?c" by simp
    then have "\<lfloor>v / 360\<rfloor> = ?c" by (metis floor_of_int)
    moreover have "js_rem (0 + 360) 360 = 0" by (simp add: js_rem_def js_trunc_def)
    ultimately show ?thesis using r True by simp
  next
    case False
    with rng have rng': "0 < ?r + 360" "?r + 360 < 360" by simp_all
    then have "\<lfloor>(?r + 360) / 360\<rfloor> = 0"
      by (intro floor_unique) (simp_all add: field_simps)
    moreover have "0 \<le> (?r + 360) / 360" using rng' by simp
    ultimately have j: "js_rem (?r + 360) 360 = ?r + 360"
      by (simp add: js_rem_def js_trunc_def)
    from False have "v / 360 \<noteq> of_int ?c" by auto
    with c(1) have "v / 360 < of_int ?c" by (rule le_neq_trans)
    with c(2) have "of_int (?c - 1) \<le> v / 360" "v / 360 < of_int (?c - 1) + 1"
      by linarith+
    then have "\<lfloor>v / 360\<rfloor> = ?c - 1" by (rule floor_unique)
    with j r show ?thesis by simp
  qed
qed

lemma normalized_range_real:
  "0 \<le> js_rem (js_rem v 360 + 360) 360 \<and> js_rem (js_rem v 360 + 360) 360 < 360"
  unfolding normalized_floor by (rule floor_mod_range)

lemma normalized_periodic_real:
  "js_rem (js_rem (v + 360) 360 + 360) 360 = js_rem (js_rem v 360 + 360) 360"
proof -
  have e: "(v + 360) / 360 = v / 360 + 1" by simp
  have "\<lfloor>v / 360 + 1\<rfloor> = \<lfloor>v / 360\<rfloor> + 1" by linarith
  then have "\<lfloor>(v + 360) / 360\<rfloor> = \<lfloor>v / 360\<rfloor> + 1"
    by (simp only: e)
  then show ?thesis unfolding normalized_floor by simp
qed

subsection \<open>The normalisation with the rounded sum\<close>

lemma js_rem_360_bounds: "- 360 < js_rem v 360 \<and> js_rem v 360 < 360"
proof (cases "0 \<le> v")
  case True
  with js_rem_nonneg [of v] floor_mod_range [of v] show ?thesis by simp
next
  case False
  have c: "v / 360 \<le> of_int \<lceil>v / 360\<rceil>" "of_int \<lceil>v / 360\<rceil> - 1 < v / 360" by linarith+
  then have "v \<le> 360 * of_int \<lceil>v / 360\<rceil>" "360 * (of_int \<lceil>v / 360\<rceil> - 1) < v"
    by (simp_all only: pos_divide_le_eq pos_less_divide_eq mult.commute)
  moreover from False have "js_rem v 360 = v - 360 * of_int \<lceil>v / 360\<rceil>"
    by (simp add: js_rem_def js_trunc_def)
  ultimately show ?thesis by (simp add: algebra_simps)
qed

lemma roundHalfEven_nonneg: "0 \<le> y \<Longrightarrow> 0 \<le> roundHalfEven y"
  by (simp add: roundHalfEven_def Let_def)

lemma roundHalfEven_of_int: "roundHalfEven (of_int k) = k"
  by (simp add: roundHalfEven_def Let_def)

lemma toDouble_nonneg: "0 \<le> x \<Longrightarrow> 0 \<le> toDouble x"
  by (simp add: toDouble_def Let_def roundHalfEven_nonneg)

text \<open>
  A positive number with exponent \<open>k\<close> that is a whole multiple of the distance of the
  doubles at that exponent is a double: rounding leaves it as it is.
\<close>

lemma toDouble_exact:
  assumes "2 powr of_int k \<le> x" "x < 2 powr (of_int k + 1)"
    and "x / 2 powr (of_int k - 52) = of_int m"
  shows "toDouble x = x"
proof -
  have "0 < (2::real) powr of_int k" by simp
  with assms(1) have pos: "0 < x" by linarith
  then have e: "\<lfloor>log 2 x\<rfloor> = k"
    using assms(1,2) by (simp add: floor_log_eq_powr_iff)
  have u: "0 < (2::real) powr (of_int k - 52)" by simp
  have "toDouble x = 2 powr (of_int k - 52) * of_int (roundHalfEven (x / 2 powr (of_int k - 52)))"
    using pos by (simp add: toDouble_def Let_def e)
  also have "\<dots> = 2 powr (of_int k - 52) * of_int m"
    by (simp only: assms(3) roundHalfEven_of_int)
  also have "\<dots> = 2 powr (of_int k - 52) * (x / 2 powr (of_int k - 52))"
    by (simp only: assms(3))
  also have "\<dots> = x" using u by simp
  finally show ?thesis .
qed

lemma toDouble_360: "toDouble 360 = 360"
  by (rule toDouble_exact [of 8 _ "360 * 2 ^ 44"]) (simp_all add: powr_neg_numeral)

lemma toDouble_405: "toDouble 405 = 405"
  by (rule toDouble_exact [of 8 _ "405 * 2 ^ 44"]) (simp_all add: powr_neg_numeral)

lemma normalized_range:
  "0 \<le> js_rem (toDouble (js_rem v 360 + 360)) 360
   \<and> js_rem (toDouble (js_rem v 360 + 360)) 360 < 360"
proof -
  have "0 \<le> js_rem v 360 + 360" using js_rem_360_bounds [of v] by simp
  then have "0 \<le> toDouble (js_rem v 360 + 360)" by (rule toDouble_nonneg)
  then show ?thesis
    using floor_mod_range [of "toDouble (js_rem v 360 + 360)"] by (simp add: js_rem_nonneg)
qed

lemma normalized_multiple: "js_rem (toDouble (js_rem (360 * of_int k) 360 + 360)) 360 = 0"
proof -
  have "js_rem (360 * of_int k) 360 = 0"
    by (simp add: js_rem_def js_trunc_def)
  moreover have "js_rem 360 360 = 0"
    by (simp add: js_rem_def js_trunc_def)
  ultimately show ?thesis by (simp add: toDouble_360)
qed

lemma normalized_periodic_exact:
  assumes "toDouble (js_rem v 360 + 360) = js_rem v 360 + 360"
    and "toDouble (js_rem (v + 360) 360 + 360) = js_rem (v + 360) 360 + 360"
  shows "js_rem (toDouble (js_rem (v + 360) 360 + 360)) 360
       = js_rem (toDouble (js_rem v 360 + 360)) 360"
  unfolding assms by (rule normalized_periodic_real)

subsection \<open>The two controllers\<close>

lemma createRotatedTexture_rotation:
  "rotation (snd (createRotatedTexture t r s)) = rotation s"
  by (simp add: createRotatedTexture_def Let_def split: option.splits prod.splits)

lemma notify_rotation: "rotation (notifyEnvironmentMapUpdated t i s) = rotation s"
  by (simp add: notifyEnvironmentMapUpdated_def)

lemma disposeEnvironmentTarget_rotation: "rotation (disposeEnvironmentTarget s) = rotation s"
  by (simp add: disposeEnvironmentTarget_def split: option.splits)

lemma rotatedSource_rotation: "rotation (snd (rotatedSource cur s)) = rotation s"
  by (simp add: rotatedSource_def createRotatedTexture_rotation)

lemma convolve_rotation: "rotation (snd (convolve t s)) = rotation s"
  by (simp add: convolve_def)

lemma applyBackground_rotation: "rotation (applyBackground cur t s) = rotation s"
  by (simp add: applyBackground_def Let_def split_beta rotatedSource_rotation)

lemma applyEnvironment_rotation: "rotation (applyEnvironment s) = rotation s"
  by (simp add: applyEnvironment_def Let_def split_beta notify_rotation
      disposeEnvironmentTarget_rotation rotatedSource_rotation convolve_rotation
      applyBackground_rotation split: option.splits)

lemma env_setRotation_rotation:
  "rotation (env_setRotation val s) = js_rem (toDouble (js_rem (nullish val 0) 360 + 360)) 360"
  by (simp add: env_setRotation_def Let_def applyEnvironment_rotation)

lemma env_setRotation_idem:
  "env_setRotation val (env_setRotation val s) = env_setRotation val s"
  using env_setRotation_rotation [of val s]
  by (simp add: env_setRotation_def [of val "env_setRotation val s"] Let_def)

lemma env_setRotation_same_angle:
  assumes "js_rem (toDouble (js_rem v 360 + 360)) 360 = js_rem (toDouble (js_rem w 360 + 360)) 360"
  shows "env_setRotation (Some v) s = env_setRotation (Some w) s"
  using assms by (simp add: env_setRotation_def nullish_def)

lemma rotateLight_apply:
  "rotateLight c sn bp lid ls k =
     (if k = lid then
        (case bp lid of None \<Rightarrow> ls lid
         | Some base \<Rightarrow> map_option (\<lambda>l. l\<lparr> position := placed c sn base \<rparr>) (ls lid))
      else ls k)"
  by (simp add: rotateLight_def placed_def Let_def split: option.splits)

lemma rotateLights_apply:
  "rotateLights c sn bp ls k =
     (if k = Ambient then ls k
      else (case bp k of None \<Rightarrow> ls k
            | Some base \<Rightarrow> map_option (\<lambda>l. l\<lparr> position := placed c sn base \<rparr>) (ls k)))"
proof (cases k)
  case Key
  then show ?thesis
    by (simp add: rotateLights_def rotateLight_apply split: option.splits)
next
  case Fill
  then show ?thesis
    by (simp add: rotateLights_def rotateLight_apply split: option.splits)
next
  case Rim
  then show ?thesis
    by (simp add: rotateLights_def rotateLight_apply split: option.splits)
next
  case Ambient
  then show ?thesis
    by (simp add: rotateLights_def rotateLight_apply)
qed

lemma rotateLights_idem:
  "rotateLights c sn bp (rotateLights c sn bp ls) = rotateLights c sn bp ls"
proof (rule ext)
  fix k
  show "rotateLights c sn bp (rotateLights c sn bp ls) k = rotateLights c sn bp ls k"
    unfolding rotateLights_apply
    by (cases "ls k") (simp_all split: option.splits)
qed


lemma updateIndicator_idem:
  "updateIndicator b ls (updateIndicator b ls child) = updateIndicator b ls child"
  by (simp add: updateIndicator_def Let_def split: option.splits)

lemma updateIndicators_idem: "updateIndicators (updateIndicators s) = updateIndicators s"
  by (simp add: updateIndicators_def updateIndicator_idem split: option.splits)

lemma updateIndicators_fields:
  "lights (updateIndicators s) = lights s"
  "basePositions (updateIndicators s) = basePositions s"
  "lights_rotation (updateIndicators s) = lights_rotation s"
  by (simp_all add: updateIndicators_def split: option.splits)

lemma lights_setRotation_fst:
  "fst (lights_setRotation v s) = js_rem (toDouble (js_rem v 360 + 360)) 360"
  by (simp add: lights_setRotation_def Let_def split: option.splits)

lemma lights_setRotation_rotation:
  "lights_rotation (snd (lights_setRotation v s)) = js_rem (toDouble (js_rem v 360 + 360)) 360"
  by (simp add: lights_setRotation_def Let_def updateIndicators_fields split: option.splits)

lemma lights_setRotation_same_angle:
  assumes "js_rem (toDouble (js_rem v 360 + 360)) 360 = js_rem (toDouble (js_rem w 360 + 360)) 360"
  shows "lights_setRotation v s = lights_setRotation w s"
  using assms by (simp add: lights_setRotation_def)

lemma lights_setRotation_idem:
  "lights_setRotation v (snd (lights_setRotation v s)) = lights_setRotation v s"
proof (cases "basePositions s")
  case None
  then show ?thesis by (simp add: lights_setRotation_def Let_def)
next
  case (Some bp)
  let ?n = "js_rem (toDouble (js_rem v 360 + 360)) 360"
  let ?R = "rotateLights (cos (degToRad ?n)) (sin (degToRad ?n)) bp"
  let ?s2 = "s\<lparr> lights_rotation := ?n, lights := ?R (lights s) \<rparr>"
  have 1: "lights_setRotation v s = (?n, updateIndicators ?s2)"
    using Some by (simp add: lights_setRotation_def Let_def)
  have "lights_setRotation v (updateIndicators ?s2) =
      (?n, updateIndicators ((updateIndicators ?s2)\<lparr> lights_rotation := ?n,
             lights := ?R (lights (updateIndicators ?s2)) \<rparr>))"
    using Some by (simp add: lights_setRotation_def Let_def updateIndicators_fields)
  also have "(updateIndicators ?s2)\<lparr> lights_rotation := ?n,
             lights := ?R (lights (updateIndicators ?s2)) \<rparr> = updateIndicators ?s2"
    by (simp add: updateIndicators_fields rotateLights_idem updateIndicators_def
        split: option.splits)
  finally show ?thesis
    by (simp add: 1 updateIndicators_idem)
qed

lemma lights_setRotation_full_turn:
  assumes "basePositions s = Some bp" "bp lid = Some b" "lights s lid = Some l" "lid \<noteq> Ambient"
  shows "map_option position (lights (snd (lights_setRotation (360 * of_int k) s)) lid) = Some b"
proof -
  have n: "js_rem (toDouble (js_rem (360 * of_int k) 360 + 360)) 360 = 0"
    by (rule normalized_multiple)
  have "placed (cos (degToRad 0)) (sin (degToRad 0)) b = b"
    by (simp add: placed_def degToRad_def)
  with assms show ?thesis
    unfolding lights_setRotation_def Let_def n
    by (simp add: updateIndicators_fields rotateLights_apply)
qed

subsection \<open>Sums that are rounded and sums that are exact\<close>

lemma roundHalfEven_tie: "even m \<Longrightarrow> roundHalfEven (of_int m + 1 / 2) = m"
proof -
  have "\<lfloor>of_int m + (1 / 2 :: real)\<rfloor> = m" by linarith
  moreover assume "even m"
  ultimately show ?thesis by (simp add: roundHalfEven_def Let_def)
qed

text \<open>
  A positive number half way between two doubles is rounded to the one with the even
  significand.
\<close>

lemma toDouble_tie:
  assumes "2 powr of_int k \<le> x" "x < 2 powr (of_int k + 1)"
    and "x / 2 powr (of_int k - 52) = of_int m + 1 / 2" and "even m"
  shows "toDouble x = 2 powr (of_int k - 52) * of_int m"
proof -
  have "0 < (2::real) powr of_int k" by simp
  with assms(1) have pos: "0 < x" by linarith
  then have e: "\<lfloor>log 2 x\<rfloor> = k"
    using assms(1,2) by (simp add: floor_log_eq_powr_iff)
  have "toDouble x = 2 powr (of_int k - 52) * of_int (roundHalfEven (x / 2 powr (of_int k - 52)))"
    using pos by (simp add: toDouble_def Let_def e)
  also have "\<dots> = 2 powr (of_int k - 52) * of_int m"
    by (simp only: assms(3) roundHalfEven_tie [OF assms(4)])
  finally show ?thesis .
qed

lemma js_rem_small:
  assumes "0 \<le> x" "x < 360"
  shows "js_rem x 360 = x"
proof -
  from assms have "\<lfloor>x / 360\<rfloor> = 0" by (intro floor_unique) simp_all
  with assms(1) show ?thesis by (simp add: js_rem_nonneg)
qed

lemma js_rem_small_negative:
  assumes "- 360 < x" "x < 0"
  shows "js_rem x 360 = x"
proof -
  from assms have "\<lceil>x / 360\<rceil> = 0" by (intro ceiling_unique) simp_all
  with assms(2) show ?thesis by (simp add: js_rem_def js_trunc_def)
qed

lemma normalized_low: "js_rem (toDouble (js_rem (- 240 + 1 / 2 ^ 45) 360 + 360)) 360 = 120 + 1 / 2 ^ 45"
proof -
  have a: "js_rem (- 240 + 1 / 2 ^ 45) 360 = - 240 + 1 / 2 ^ 45"
    by (rule js_rem_small_negative) simp_all
  have b: "- 240 + 1 / 2 ^ 45 + 360 = (120 + 1 / 2 ^ 45 :: real)"
    by simp
  have c: "toDouble (120 + 1 / 2 ^ 45) = 120 + 1 / 2 ^ 45"
    by (rule toDouble_exact [of 6 _ "120 * 2 ^ 46 + 2"]) (simp_all add: powr_neg_numeral)
  have d: "js_rem (120 + 1 / 2 ^ 45) 360 = 120 + 1 / 2 ^ 45"
    by (rule js_rem_small) simp_all
  show ?thesis
    unfolding a b c d ..
qed

lemma normalized_high: "js_rem (toDouble (js_rem (- 240 + 1 / 2 ^ 45 + 360) 360 + 360)) 360 = 120"
proof -
  have a: "- 240 + 1 / 2 ^ 45 + 360 = (120 + 1 / 2 ^ 45 :: real)"
    by simp
  have b: "js_rem (120 + 1 / 2 ^ 45) 360 = 120 + 1 / 2 ^ 45"
    by (rule js_rem_small) simp_all
  have c: "120 + 1 / 2 ^ 45 + 360 = (480 + 1 / 2 ^ 45 :: real)"
    by simp
  have "toDouble (480 + 1 / 2 ^ 45) = 2 powr (of_int 8 - 52) * of_int (480 * 2 ^ 44)"
    by (rule toDouble_tie) (simp_all add: powr_neg_numeral)
  then have d: "toDouble (480 + 1 / 2 ^ 45) = 480"
    by (simp add: powr_neg_numeral)
  have e: "js_rem 480 360 = 120"
    by (simp add: js_rem_def js_trunc_def)
  show ?thesis
    unfolding a b c d e ..
qed

lemma toDouble_low: "toDouble (- 240 + 1 / 2 ^ 45) = - 240 + 1 / 2 ^ 45"
proof -
  have "\<lfloor>log 2 \<bar>- 240 + 1 / 2 ^ 45 :: real\<bar>\<rfloor> = 7"
    by (simp add: floor_log_eq_powr_iff)
  moreover have "roundHalfEven (- (240 * 2 ^ 45 - 1)) = - (240 * 2 ^ 45 - 1)"
    using roundHalfEven_of_int [of "- (240 * 2 ^ 45 - 1)"] by simp
  ultimately show ?thesis
    by (simp add: toDouble_def Let_def powr_neg_numeral)
qed

lemma toDouble_of_int:
  assumes "0 < n" "n < 720"
  shows "toDouble (of_int n) = of_int n"
proof -
  define k where "k = \<lfloor>log 2 (of_int n)\<rfloor>"
  have pos: "0 < (of_int n :: real)" using assms(1) by simp
  have b: "2 powr of_int k \<le> (of_int n :: real) \<and> (of_int n :: real) < 2 powr (of_int k + 1)"
    using pos floor_log_eq_powr_iff [where b = 2 and x = "of_int n" and k = k]
    by (simp add: k_def)
  have "(of_int n :: real) < 2 powr 10" using assms(2) by simp
  with b have "(2::real) powr of_int k < 2 powr 10" by linarith
  then have "(of_int k :: real) < 10" by (simp only: powr_less_cancel_iff [of 2] one_less_numeral_iff num.simps semiring_norm)
  then have k10: "k < 10" by simp
  have "1 \<le> (of_int n :: real)" using assms(1) by simp
  then have "0 \<le> log 2 (of_int n)" by simp
  then have k0: "0 \<le> k" by (simp add: k_def)
  have "(2::real) powr (52 - of_int k) = 2 powr of_int (52 - k)" by simp
  also have "\<dots> = 2 ^ nat (52 - k)"
    using k10 by (simp only: powr_real_of_int) simp
  finally have p: "(2::real) powr (52 - of_int k) = 2 ^ nat (52 - k)" .
  have "(2::real) powr (of_int k - 52) = 1 / 2 powr (52 - of_int k)"
    using powr_minus_divide [of 2 "52 - of_int k"] by simp
  then have "(of_int n :: real) / 2 powr (of_int k - 52) = of_int n * 2 powr (52 - of_int k)"
    by simp
  also have "\<dots> = of_int (n * 2 ^ nat (52 - k))"
    by (simp add: p)
  finally have m: "(of_int n :: real) / 2 powr (of_int k - 52) = of_int (n * 2 ^ nat (52 - k))" .
  show ?thesis
    using b m by (intro toDouble_exact [of k _ "n * 2 ^ nat (52 - k)"]) simp_all
qed

lemma js_rem_of_int:
  "js_rem (of_int k) 360 = of_int (k - 360 * js_trunc (of_int k / 360))"
  by (simp add: js_rem_def)

lemma normalized_sum_of_int:
  "toDouble (js_rem (of_int k) 360 + 360) = js_rem (of_int k) 360 + 360"
proof -
  define r where "r = k - 360 * js_trunc (of_int k / 360)"
  have r: "js_rem (of_int k) 360 = of_int r"
    by (simp add: r_def js_rem_of_int)
  have "- 360 < (of_int r :: real) \<and> (of_int r :: real) < 360"
    using js_rem_360_bounds [of "of_int k"] by (simp only: r)
  then have "0 < r + 360" "r + 360 < 720" by linarith+
  then have "toDouble (of_int (r + 360)) = of_int (r + 360)" by (rule toDouble_of_int)
  then show ?thesis by (simp add: r)
qed

lemma normalized_periodic_of_int:
  "js_rem (toDouble (js_rem (of_int k + 360) 360 + 360)) 360
   = js_rem (toDouble (js_rem (of_int k) 360 + 360)) 360"
proof -
  have "toDouble (js_rem (of_int k + 360) 360 + 360) = js_rem (of_int k + 360) 360 + 360"
    using normalized_sum_of_int [of "k + 360"] by simp
  then show ?thesis
    by (intro normalized_periodic_exact normalized_sum_of_int)
qed

subsection \<open>A full turn\<close>

lemma toDouble_high: "toDouble (- 240 + 1 / 2 ^ 45 + 360) = - 240 + 1 / 2 ^ 45 + 360"
proof -
  have a: "- 240 + 1 / 2 ^ 45 + 360 = (120 + 1 / 2 ^ 45 :: real)"
    by simp
  have c: "toDouble (120 + 1 / 2 ^ 45) = 120 + 1 / 2 ^ 45"
    by (rule toDouble_exact [of 6 _ "120 * 2 ^ 46 + 2"]) (simp_all add: powr_neg_numeral)
  show ?thesis
    unfolding a c ..
qed

text \<open>
  C7, as the claim states it, fails. \<open>\<theta> = -240 + 2\<^sup>-\<^sup>4\<^sup>5\<close> is a double, and so is
  \<open>\<theta> + 360 = 120 + 2\<^sup>-\<^sup>4\<^sup>5\<close>. For \<open>\<theta>\<close> the sum \<^verbatim>\<open>(value % 360) + 360\<close> is \<open>120 + 2\<^sup>-\<^sup>4\<^sup>5\<close>, which
  is exact, and the stored angle is \<open>120 + 2\<^sup>-\<^sup>4\<^sup>5\<close>. For \<open>\<theta> + 360\<close> the sum is
  \<open>480 + 2\<^sup>-\<^sup>4\<^sup>5\<close>, half way between the doubles \<open>480\<close> and \<open>480 + 2\<^sup>-\<^sup>4\<^sup>4\<close>; it is rounded to
  \<open>480\<close>, and the stored angle is \<open>120\<close>. So \<^verbatim>\<open>setRotation(\<theta> + 360)\<close> and \<^verbatim>\<open>setRotation(\<theta>)\<close>
  store different angles and leave different states, in the environment controller and
  in the lights controller.
\<close>

theorem setRotation_full_turn_counterexample:
  "toDouble (- 240 + 1 / 2 ^ 45) = - 240 + 1 / 2 ^ 45
   \<and> toDouble (- 240 + 1 / 2 ^ 45 + 360) = - 240 + 1 / 2 ^ 45 + 360
   \<and> rotation (env_setRotation (Some (- 240 + 1 / 2 ^ 45))
        (env_constructor emptyScene studioOptions)) = 120 + 1 / 2 ^ 45
   \<and> rotation (env_setRotation (Some (- 240 + 1 / 2 ^ 45 + 360))
        (env_constructor emptyScene studioOptions)) = 120
   \<and> fst (lights_setRotation (- 240 + 1 / 2 ^ 45)
        (lights_constructor None None None None)) = 120 + 1 / 2 ^ 45
   \<and> fst (lights_setRotation (- 240 + 1 / 2 ^ 45 + 360)
        (lights_constructor None None None None)) = 120
   \<and> env_setRotation (Some (- 240 + 1 / 2 ^ 45 + 360)) (env_constructor emptyScene studioOptions)
       \<noteq> env_setRotation (Some (- 240 + 1 / 2 ^ 45)) (env_constructor emptyScene studioOptions)
   \<and> lights_setRotation (- 240 + 1 / 2 ^ 45 + 360) (lights_constructor None None None None)
       \<noteq> lights_setRotation (- 240 + 1 / 2 ^ 45) (lights_constructor None None None None)"
proof -
  let ?e = "env_constructor emptyScene studioOptions"
  let ?l = "lights_constructor None None None None"
  have e1: "rotation (env_setRotation (Some (- 240 + 1 / 2 ^ 45)) ?e) = 120 + 1 / 2 ^ 45"
    unfolding env_setRotation_rotation nullish_def option.case by (rule normalized_low)
  have e2: "rotation (env_setRotation (Some (- 240 + 1 / 2 ^ 45 + 360)) ?e) = 120"
    unfolding env_setRotation_rotation nullish_def option.case by (rule normalized_high)
  have l1: "fst (lights_setRotation (- 240 + 1 / 2 ^ 45) ?l) = 120 + 1 / 2 ^ 45"
    unfolding lights_setRotation_fst by (rule normalized_low)
  have l2: "fst (lights_setRotation (- 240 + 1 / 2 ^ 45 + 360) ?l) = 120"
    unfolding lights_setRotation_fst by (rule normalized_high)
  have ne: "(120 + 1 / 2 ^ 45 :: real) \<noteq> 120"
    by simp
  have e3: "env_setRotation (Some (- 240 + 1 / 2 ^ 45 + 360)) ?e
      \<noteq> env_setRotation (Some (- 240 + 1 / 2 ^ 45)) ?e"
    using e1 e2 ne by metis
  have l3: "lights_setRotation (- 240 + 1 / 2 ^ 45 + 360) ?l
      \<noteq> lights_setRotation (- 240 + 1 / 2 ^ 45) ?l"
    using l1 l2 ne by metis
  show ?thesis
    using toDouble_low toDouble_high e1 e2 l1 l2 e3 l3 by (intro conjI)
qed

text \<open>
  C7, amended. For every angle \<open>\<theta>\<close>, \<^verbatim>\<open>setRotation\<close> of the environment controller and of
  the lights controller store an angle in \<open>[0, 360)\<close>, and calling \<^verbatim>\<open>setRotation\<close> again
  with the same angle changes nothing. \<^verbatim>\<open>setRotation(\<theta> + 360)\<close> leaves the same state as
  \<^verbatim>\<open>setRotation(\<theta>)\<close> when no rounding takes place: when \<open>\<theta> + 360\<close> is a double and the sum
  \<^verbatim>\<open>(value % 360) + 360\<close> is exact for both arguments. This is so for every whole number
  of degrees \<open>n\<close> with \<open>\<bar>n\<bar> + 360 \<le> 2\<^sup>5\<^sup>3\<close>. After \<^verbatim>\<open>setRotation\<close> of the lights controller with a
  multiple of 360 the stored angle is \<open>0\<close>, its cosine is \<open>1\<close> and its sine \<open>0\<close>, and every
  directional light that has a base position is at that base position.
\<close>

theorem setRotation_idempotent_exact_turn:
  "0 \<le> rotation (env_setRotation (Some \<theta>) e)
   \<and> rotation (env_setRotation (Some \<theta>) e) < 360
   \<and> env_setRotation (Some \<theta>) (env_setRotation (Some \<theta>) e) = env_setRotation (Some \<theta>) e
   \<and> lights_rotation (snd (lights_setRotation \<theta> l)) = fst (lights_setRotation \<theta> l)
   \<and> 0 \<le> fst (lights_setRotation \<theta> l) \<and> fst (lights_setRotation \<theta> l) < 360
   \<and> lights_setRotation \<theta> (snd (lights_setRotation \<theta> l)) = lights_setRotation \<theta> l
   \<and> (toDouble (\<theta> + 360) = \<theta> + 360
      \<and> toDouble (js_rem \<theta> 360 + 360) = js_rem \<theta> 360 + 360
      \<and> toDouble (js_rem (toDouble (\<theta> + 360)) 360 + 360) = js_rem (toDouble (\<theta> + 360)) 360 + 360
      \<longrightarrow> env_setRotation (Some (toDouble (\<theta> + 360))) e = env_setRotation (Some \<theta>) e
          \<and> lights_setRotation (toDouble (\<theta> + 360)) l = lights_setRotation \<theta> l)
   \<and> (\<bar>n\<bar> + 360 \<le> 2 ^ 53
      \<longrightarrow> env_setRotation (Some (of_int n + 360)) e = env_setRotation (Some (of_int n)) e
          \<and> lights_setRotation (of_int n + 360) l = lights_setRotation (of_int n) l)
   \<and> (basePositions l = Some bp \<and> bp lid = Some b \<and> lights l lid = Some lt \<and> lid \<noteq> Ambient
        \<longrightarrow> lights_rotation (snd (lights_setRotation (360 * of_int k) l)) = 0
            \<and> map_option position (lights (snd (lights_setRotation (360 * of_int k) l)) lid)
              = Some b)"
proof -
  have range: "0 \<le> rotation (env_setRotation (Some \<theta>) e)
      \<and> rotation (env_setRotation (Some \<theta>) e) < 360
      \<and> 0 \<le> fst (lights_setRotation \<theta> l) \<and> fst (lights_setRotation \<theta> l) < 360"
    using normalized_range [of \<theta>]
    by (simp add: env_setRotation_rotation lights_setRotation_fst nullish_def)
  have stored: "lights_rotation (snd (lights_setRotation \<theta> l)) = fst (lights_setRotation \<theta> l)"
    by (simp add: lights_setRotation_rotation lights_setRotation_fst)
  have exact: "env_setRotation (Some (toDouble (\<theta> + 360))) e = env_setRotation (Some \<theta>) e
      \<and> lights_setRotation (toDouble (\<theta> + 360)) l = lights_setRotation \<theta> l"
    if h: "toDouble (\<theta> + 360) = \<theta> + 360"
      "toDouble (js_rem \<theta> 360 + 360) = js_rem \<theta> 360 + 360"
      "toDouble (js_rem (toDouble (\<theta> + 360)) 360 + 360)
         = js_rem (toDouble (\<theta> + 360)) 360 + 360"
  proof -
    have "js_rem (toDouble (js_rem (\<theta> + 360) 360 + 360)) 360
        = js_rem (toDouble (js_rem \<theta> 360 + 360)) 360"
      using h(2) h(3) unfolding h(1) by (rule normalized_periodic_exact)
    then show ?thesis
      unfolding h(1)
      by (intro conjI env_setRotation_same_angle lights_setRotation_same_angle)
  qed
  have whole: "env_setRotation (Some (of_int n + 360)) e = env_setRotation (Some (of_int n)) e
      \<and> lights_setRotation (of_int n + 360) l = lights_setRotation (of_int n) l"
    by (intro conjI env_setRotation_same_angle lights_setRotation_same_angle
        normalized_periodic_of_int)
  have turn: "lights_rotation (snd (lights_setRotation (360 * of_int k) l)) = 0"
    unfolding lights_setRotation_rotation by (rule normalized_multiple)
  show ?thesis
    using range stored exact whole turn lights_setRotation_full_turn [of l bp lid b lt k]
      env_setRotation_idem [of "Some \<theta>" e] lights_setRotation_idem [of \<theta> l]
    by blast
qed

text \<open>
  On a new rig and a new environment controller, \<^verbatim>\<open>setRotation(45 + 360)\<close> leaves the state
  of \<^verbatim>\<open>setRotation(45)\<close>: the sums \<open>45 + 360\<close> and \<open>(405 % 360) + 360\<close> are the double \<open>405\<close>.
  \<^verbatim>\<open>setRotation(720)\<close> puts the key light at its base position \<open>(5, 5, 5)\<close>.
\<close>

theorem setRotation_idempotent_exact_turn_witness:
  "basePositions (lights_constructor None None None None) =
     Some [Key \<mapsto> Vector3 5 5 5, Fill \<mapsto> Vector3 (-4) 3 3, Rim \<mapsto> Vector3 (-2) 4 (-4)]
   \<and> lights (lights_constructor None None None None) Key
       = Some (directionalLight 4 (Vector3 5 5 5))
   \<and> toDouble (45 + 360) = 45 + 360
   \<and> toDouble (js_rem 45 360 + 360) = js_rem 45 360 + 360
   \<and> toDouble (js_rem (toDouble (45 + 360)) 360 + 360) = js_rem (toDouble (45 + 360)) 360 + 360
   \<and> lights_setRotation (toDouble (45 + 360)) (lights_constructor None None None None)
       = lights_setRotation 45 (lights_constructor None None None None)
   \<and> env_setRotation (Some (toDouble (45 + 360))) (env_constructor emptyScene studioOptions)
       = env_setRotation (Some 45) (env_constructor emptyScene studioOptions)
   \<and> lights_setRotation (of_int 45 + 360) (lights_constructor None None None None)
       = lights_setRotation (of_int 45) (lights_constructor None None None None)
   \<and> map_option position
        (lights (snd (lights_setRotation (360 * of_int 2) (lights_constructor None None None None)))
           Key) = Some (Vector3 5 5 5)"
proof -
  let ?l = "lights_constructor None None None None"
  let ?bp = "[Key \<mapsto> Vector3 5 5 5, Fill \<mapsto> Vector3 (-4) 3 3, Rim \<mapsto> Vector3 (-2) 4 (-4)]"
  have h: "basePositions ?l = Some ?bp" "?bp Key = Some (Vector3 5 5 5)"
    "lights ?l Key = Some (directionalLight 4 (Vector3 5 5 5))"
    by (simp_all add: lights_constructor_def)
  have d1: "toDouble (45 + 360) = 45 + 360"
    by (simp add: toDouble_405)
  have r1: "js_rem 45 360 = 45"
    by (simp add: js_rem_def js_trunc_def)
  have r2: "js_rem 405 360 = 45"
    by (simp add: js_rem_def js_trunc_def)
  have d2: "toDouble (js_rem 45 360 + 360) = js_rem 45 360 + 360"
    by (simp add: r1 toDouble_405)
  have d3: "toDouble (js_rem (toDouble (45 + 360)) 360 + 360)
      = js_rem (toDouble (45 + 360)) 360 + 360"
    by (simp add: r2 toDouble_405)
  have n: "\<bar>45 :: int\<bar> + 360 \<le> 2 ^ 53"
    by simp
  from setRotation_idempotent_exact_turn [of 45 "env_constructor emptyScene studioOptions" ?l
      45 ?bp Key "Vector3 5 5 5" "directionalLight 4 (Vector3 5 5 5)" 2] h d1 d2 d3 n
  show ?thesis by blast
qed

section \<open>Teardown of the environment controller\<close>

lemma createRotatedTexture_textures:
  "TextureResource i \<in> set (disposed (snd (createRotatedTexture t r s)))
     \<longleftrightarrow> TextureResource i \<in> set (disposed s)"
  by (simp add: createRotatedTexture_def Let_def split: option.splits prod.splits)

lemma notify_disposed: "disposed (notifyEnvironmentMapUpdated t i s) = disposed s"
  by (simp add: notifyEnvironmentMapUpdated_def)

lemma disposeEnvironmentTarget_textures:
  "TextureResource i \<in> set (disposed (disposeEnvironmentTarget s))
     \<longleftrightarrow> TextureResource i \<in> set (disposed s)"
  by (simp add: disposeEnvironmentTarget_def split: option.splits)

lemma rotatedSource_textures:
  "TextureResource i \<in> set (disposed (snd (rotatedSource cur s)))
     \<longleftrightarrow> TextureResource i \<in> set (disposed s)"
  by (simp add: rotatedSource_def createRotatedTexture_textures)

lemma convolve_disposed: "disposed (snd (convolve t s)) = disposed s"
  by (simp add: convolve_def)

lemma applyBackground_textures:
  "TextureResource i \<in> set (disposed (applyBackground cur t s))
     \<longleftrightarrow> TextureResource i \<in> set (disposed s)"
  by (simp add: applyBackground_def Let_def split_beta rotatedSource_textures)

lemma applyEnvironment_textures:
  "TextureResource i \<in> set (disposed (applyEnvironment s))
     \<longleftrightarrow> TextureResource i \<in> set (disposed s)"
  by (simp add: applyEnvironment_def Let_def split_beta notify_disposed
      disposeEnvironmentTarget_textures rotatedSource_textures convolve_disposed
      applyBackground_textures split: option.splits)

lemma loadHdriTexture_disposed: "disposed (snd (loadHdriTexture c out s)) = disposed s"
  by (simp add: loadHdriTexture_def Let_def split: option.splits preset_config.splits)

lemma setPreset_textures:
  "TextureResource i \<in> set (disposed (snd (setPreset p out s)))
     \<longleftrightarrow> TextureResource i \<in> set (disposed s)"
proof -
  have l: "disposed s1 = disposed s" if "loadHdriTexture c out s = (r, s1)" for c r s1
    using loadHdriTexture_disposed [of c out s] that by simp
  show ?thesis
    by (auto simp add: setPreset_def applyEnvironment_textures dest: l
        split: option.splits prod.splits sum.splits if_splits)
qed

lemma env_step_textures:
  "TextureResource i \<in> set (disposed (env_step c s))
     \<longleftrightarrow> TextureResource i \<in> set (disposed s)"
  by (cases c)
    (simp_all add: setPreset_textures env_setEnabled_def setBackgroundEnabled_def
      setStrength_def setBlurriness_def env_setRotation_def setFallbackColor_def Let_def
      applyEnvironment_textures)

lemma env_run_textures:
  "TextureResource i \<in> set (disposed (env_run cs s))
     \<longleftrightarrow> TextureResource i \<in> set (disposed s)"
  by (induction cs arbitrary: s) (simp_all add: env_step_textures)

lemma env_dispose_textures:
  "TextureResource i \<in> set (disposed (env_dispose s))
     \<longleftrightarrow> TextureResource i \<in> set (disposed s)"
  by (simp add: env_dispose_def Let_def split: option.splits)

lemma env_dispose_cache: "cache (env_dispose s) = cache s"
  by (simp add: env_dispose_def Let_def split: option.splits)

text \<open>
  No operation of a session and no teardown disposes a texture: what is disposed is
  render targets and the PMREM generator.
\<close>

lemma cached_textures_never_disposed:
  "TextureResource i \<notin> set (disposed (env_dispose (env_run cs (env_constructor sc opts))))"
  by (simp add: env_dispose_textures env_run_textures env_constructor_def)

text \<open>
  C4. \<^verbatim>\<open>dispose()\<close> should release every GPU resource the controller owns, the textures
  of the preset cache among them. The code at a session that loaded the preset
  \<open>studio\<close>: after \<^verbatim>\<open>dispose()\<close> the cache still holds the texture, and what was disposed is
  the convolved render target and the PMREM generator, not the texture.
\<close>

theorem dispose_leaves_cached_texture:
  "cache (env_dispose (snd (setPreset ''studio'' (Inr (Some studioTexture))
        (env_constructor emptyScene studioOptions)))) ''studio'' = Some studioTexture
   \<and> disposed (env_dispose (snd (setPreset ''studio'' (Inr (Some studioTexture))
        (env_constructor emptyScene studioOptions))))
       = [RenderTargetResource 0, PmremGeneratorResource]
   \<and> TextureResource (tex_id studioTexture) \<notin> set (disposed (env_dispose (snd (setPreset
        ''studio'' (Inr (Some studioTexture)) (env_constructor emptyScene studioOptions)))))"
  by (simp add: setPreset_def env_constructor_def studioOptions_def emptyScene_def
      studioTexture_def nullish_def loadHdriTexture_def applyEnvironment_def
      disposeEnvironmentTarget_def rotatedSource_def convolve_def applyBackground_def
      notifyEnvironmentMapUpdated_def env_dispose_def Let_def)

section \<open>The pass chain\<close>






end
